theory Spec2Isabelle
  imports Main "HOL-Library.Word"
begin

unbundle bit_operations_syntax

text \<open>
  A model of the package's kernel request gateway and capability probes, as
  \<^verbatim>\<open>syscalls.go\<close> has them, and of the symbol splitter and reference linker that
  \<^verbatim>\<open>linker_test.go\<close> exercises. The functions of \<^verbatim>\<open>syscalls.go\<close> are translated from
  their source. The splitter and the linker live in files that are not at hand, as do the
  kernel's answer to a request that names a descriptor and the events of package
  \<^verbatim>\<open>tracefs\<close>; their definitions, each marked as such, follow the specification.
\<close>

section \<open>Go error values\<close>

text \<open>
  The error numbers that \<^verbatim>\<open>syscalls.go\<close> names (through the packages \<^verbatim>\<open>unix\<close> and
  \<^verbatim>\<open>sys\<close>) and those that the method \<^verbatim>\<open>syscall.Errno.Is\<close> tests. Only their being
  different from one another matters to the code, so they are constructors and not numbers;
  every other number is \<open>Errno_other\<close>.
\<close>

datatype errno =
    EPERM | ENOENT | E2BIG | EBADF | EACCES | EEXIST | EINVAL | ENOSYS | ENOTEMPTY
  | EOPNOTSUPP | ENOTSUPP | Errno_other nat

text \<open>
  The package-level error variables, each one value compared by identity:
  \<^verbatim>\<open>ErrKeyNotExist\<close>, \<^verbatim>\<open>ErrKeyExist\<close> and \<^verbatim>\<open>ErrNotSupported\<close> of this package (the last is
  the same variable as \<^verbatim>\<open>internal.ErrNotSupported\<close>), and the four of the standard library
  that \<^verbatim>\<open>syscall.Errno.Is\<close> answers to (\<^verbatim>\<open>os.ErrNotExist\<close> among them).
\<close>

datatype sentinel =
    ErrKeyNotExist | ErrKeyExist | ErrNotSupported
  | ErrPermission | ErrExist | ErrNotExist | ErrUnsupported

text \<open>
  A non-nil \<^verbatim>\<open>error\<close>: an error number, a package-level variable, an error that wraps
  nothing (\<^verbatim>\<open>errors.New\<close>, \<^verbatim>\<open>fmt.Errorf\<close> without \<^verbatim>\<open>%w\<close>), the pair built by
  \<^verbatim>\<open>sys.Error(err, errno)\<close>, and \<^verbatim>\<open>fmt.Errorf(format, err)\<close> with one \<^verbatim>\<open>%w\<close>.
  The Go type \<^verbatim>\<open>error\<close> with its nil is \<open>error option\<close>. \<^verbatim>\<open>sys.Error\<close> is declared in
  \<^verbatim>\<open>internal/sys\<close>, outside the sources at hand: the value it returns is kept as the
  constructor \<open>SysError\<close>, the pair of its two arguments.
\<close>

datatype error =
    Errno errno
  | Sentinel sentinel
  | ErrorString string
  | SysError sentinel errno
  | Wrapped string error

text \<open>The method \<^verbatim>\<open>func (e Errno) Is(target error) bool\<close> of package \<^verbatim>\<open>syscall\<close>.\<close>

fun errno_Is :: "errno \<Rightarrow> error \<Rightarrow> bool" where
  "errno_Is e (Sentinel ErrPermission) = (e = EACCES \<or> e = EPERM)"
| "errno_Is e (Sentinel ErrExist) = (e = EEXIST \<or> e = ENOTEMPTY)"
| "errno_Is e (Sentinel ErrNotExist) = (e = ENOENT)"
| "errno_Is e (Sentinel ErrUnsupported) = (e = ENOSYS \<or> e = EOPNOTSUPP)"
| "errno_Is e target = False"

text \<open>
  The optional method \<^verbatim>\<open>Is\<close> of an error: error numbers have the one above, and the
  value of \<^verbatim>\<open>sys.Error(err, errno)\<close> answers for the error it was built from.
\<close>

fun Is_method :: "error \<Rightarrow> error \<Rightarrow> bool" where
  "Is_method (Errno e) target = errno_Is e target"
| "Is_method (SysError base e) target = (target = Sentinel base)"
| "Is_method err target = False"

text \<open>
  The optional method \<^verbatim>\<open>Unwrap\<close>: \<^verbatim>\<open>sys.Error(err, errno)\<close> unwraps to its error number,
  \<^verbatim>\<open>fmt.Errorf("...%w", err)\<close> to \<^verbatim>\<open>err\<close>.
\<close>

fun Unwrap :: "error \<Rightarrow> error option" where
  "Unwrap (SysError base e) = Some (Errno e)"
| "Unwrap (Wrapped msg err) = Some err"
| "Unwrap err = None"

text \<open>
  The loop of \<^verbatim>\<open>errors.Is\<close> over the chain of a non-nil error: equal to the target, or
  answering for it through \<^verbatim>\<open>Is\<close>, or else the same for what it unwraps to. The chain
  is finite; \<open>chain_length\<close> bounds the number of turns of the loop.
\<close>

fun chain_length :: "error \<Rightarrow> nat" where
  "chain_length (Wrapped msg err) = Suc (Suc (chain_length err))"
| "chain_length (SysError base e) = Suc 0"
| "chain_length err = 0"

function errors_is :: "error \<Rightarrow> error \<Rightarrow> bool" where
  "errors_is err target =
     (err = target \<or> Is_method err target \<or>
      (case Unwrap err of None \<Rightarrow> False | Some err' \<Rightarrow> errors_is err' target))"
  by pat_completeness auto
termination
proof (relation "measure (\<lambda>(err, target). chain_length err)")
  show "wf (measure (\<lambda>(err, target). chain_length err))"
    by simp
next
  fix err target :: error and err' :: error
  assume "Unwrap err = Some err'"
  then show "((err', target), (err, target)) \<in> measure (\<lambda>(err, target). chain_length err)"
    by (cases err) auto
qed

declare errors_is.simps [simp del]

text \<open>\<^verbatim>\<open>errors.Is(err, target)\<close> for a target that is not nil: false on a nil error.\<close>

definition errors_Is :: "error option \<Rightarrow> error \<Rightarrow> bool" where
  "errors_Is err target = (case err of None \<Rightarrow> False | Some e \<Rightarrow> errors_is e target)"

text \<open>The three errors allocated once at package level.\<close>

definition sysErrKeyNotExist :: error where
  "sysErrKeyNotExist = SysError ErrKeyNotExist ENOENT"

definition sysErrKeyExist :: error where
  "sysErrKeyExist = SysError ErrKeyExist EEXIST"

definition sysErrNotSupported :: error where
  "sysErrNotSupported = SysError ErrNotSupported ENOTSUPP"

definition wrapMapError :: "error option \<Rightarrow> error option" where
  "wrapMapError err =
     (case err of
        None \<Rightarrow> None
      | Some e \<Rightarrow>
          if errors_Is err (Errno ENOENT) then Some sysErrKeyNotExist
          else if errors_Is err (Errno EEXIST) then Some sysErrKeyExist
          else if errors_Is err (Errno ENOTSUPP) then Some sysErrNotSupported
          else if errors_Is err (Errno E2BIG) then Some (Wrapped ''key too big for map: %w'' e)
          else err)"

section \<open>Object names\<close>

text \<open>
  A Go string is read by \<^verbatim>\<open>strings.Map\<close> as the sequence of its runes, and a rune is a
  signed 32-bit integer; no arithmetic is done on runes, so they are integers here. A name
  is the list of runes that ranging over the string yields (a byte that is not UTF-8
  yields \<open>RuneError\<close>).
\<close>

type_synonym rune = int

definition RuneError :: rune where
  "RuneError = 0xFFFD"

text \<open>\<^verbatim>\<open>utf8.ValidRune\<close>: a code point up to \<^verbatim>\<open>U+10FFFF\<close> that is not a surrogate.\<close>

definition ValidRune :: "rune \<Rightarrow> bool" where
  "ValidRune r = (0 \<le> r \<and> r < 0xD800 \<or> 0xDFFF < r \<and> r \<le> 0x10FFFF)"

text \<open>
  What \<^verbatim>\<open>strings.Builder.WriteRune\<close> leaves in the string, read back as a rune: the rune
  itself, and \<open>RuneError\<close> for a value that is no code point.
\<close>

definition WriteRune :: "rune \<Rightarrow> rune" where
  "WriteRune r = (if ValidRune r then r else RuneError)"

text \<open>
  \<^verbatim>\<open>strings.Map(mapping, s)\<close>: every rune of \<open>s\<close> is mapped; a negative result drops the
  rune, any other result is written to the output.
\<close>

fun strings_Map :: "(rune \<Rightarrow> rune) \<Rightarrow> rune list \<Rightarrow> rune list" where
  "strings_Map mapping [] = []"
| "strings_Map mapping (c # s) =
     (let r = mapping c
      in if 0 \<le> r then WriteRune r # strings_Map mapping s else strings_Map mapping s)"

text \<open>\<^verbatim>\<open>strings.ReplaceAll(s, old, "")\<close> for a one-rune \<open>old\<close>.\<close>

definition strings_ReplaceAll_empty :: "rune list \<Rightarrow> rune \<Rightarrow> rune list" where
  "strings_ReplaceAll_empty s old = filter (\<lambda>c. c \<noteq> old) s"

text \<open>A rune literal such as \<^verbatim>\<open>'A'\<close>.\<close>

definition rune_lit :: "char \<Rightarrow> rune" where
  "rune_lit c = of_char c"

text \<open>The function literal that \<^verbatim>\<open>sanitizeName\<close> hands to \<^verbatim>\<open>strings.Map\<close>.\<close>

definition sanitize_rune :: "rune \<Rightarrow> rune \<Rightarrow> rune" where
  "sanitize_rune replacement char =
     (if char \<ge> rune_lit CHR ''A'' \<and> char \<le> rune_lit CHR ''Z'' then char
      else if char \<ge> rune_lit CHR ''a'' \<and> char \<le> rune_lit CHR ''z'' then char
      else if char \<ge> rune_lit CHR ''0'' \<and> char \<le> rune_lit CHR ''9'' then char
      else if char = rune_lit CHR ''.'' then char
      else if char = rune_lit CHR ''_'' then char
      else replacement)"

definition sanitizeName :: "rune list \<Rightarrow> rune \<Rightarrow> rune list" where
  "sanitizeName name replacement = strings_Map (sanitize_rune replacement) name"

text \<open>
  \<^verbatim>\<open>maybeFillObjName\<close>. The two probes it consults are memoised by
  \<^verbatim>\<open>internal.NewFeatureTest\<close>; what they return to this caller is the first two
  arguments. \<^verbatim>\<open>sys.ObjName\<close> and \<^verbatim>\<open>sys.NewObjName\<close> are declared in \<^verbatim>\<open>internal/sys\<close>:
  the zero value \<^verbatim>\<open>sys.ObjName{}\<close> and the function are the next two arguments.
\<close>

definition maybeFillObjName ::
  "error option \<Rightarrow> error option \<Rightarrow> 'objname \<Rightarrow> (rune list \<Rightarrow> 'objname) \<Rightarrow> rune list \<Rightarrow> 'objname"
where
  "maybeFillObjName haveObjName objNameAllowsDot zeroObjName NewObjName name =
     (if errors_Is haveObjName (Sentinel ErrNotSupported) then zeroObjName
      else
        let name = sanitizeName name (- 1);
            name = (if errors_Is objNameAllowsDot (Sentinel ErrNotSupported)
                    then strings_ReplaceAll_empty name (rune_lit CHR ''.'') else name)
        in NewObjName name)"

text \<open>
  The characters the specification lists as kept: the letters, the digits, the dot and the
  underscore.
\<close>

definition spec_kept_characters :: string where
  "spec_kept_characters =
     ''ABCDEFGHIJKLMNOPQRSTUVWXYZabcdefghijklmnopqrstuvwxyz0123456789._''"

definition spec_kept :: "rune \<Rightarrow> bool" where
  "spec_kept c = (c \<in> rune_lit ` set spec_kept_characters)"

section \<open>The kernel as the probes see it\<close>

text \<open>
  The kernel's table of open file descriptors. A request that the kernel accepts returns
  the lowest descriptor that is not open, as \<^verbatim>\<open>open(2)\<close> and \<^verbatim>\<open>bpf(2)\<close> do;
  \<^verbatim>\<open>(*sys.FD).Close\<close> takes the descriptor out of the table.
\<close>

record kernel =
  open_fds :: "nat list"

definition lowest_free :: "nat list \<Rightarrow> nat" where
  "lowest_free fds =
     (case find (\<lambda>n. n \<notin> set fds) [0..<Suc (length fds)] of
        Some n \<Rightarrow> n
      | None \<Rightarrow> length fds)"

definition new_fd :: "kernel \<Rightarrow> nat \<times> kernel" where
  "new_fd k = (let fd = lowest_free (open_fds k) in (fd, k\<lparr>open_fds := fd # open_fds k\<rparr>))"

definition FD_Close :: "nat \<Rightarrow> kernel \<Rightarrow> kernel" where
  "FD_Close fd k = k\<lparr>open_fds := removeAll fd (open_fds k)\<rparr>"

text \<open>The identifiers of \<^verbatim>\<open>types.go\<close> and of package \<^verbatim>\<open>sys\<close> that the requests name.\<close>

datatype MapType = UnspecifiedMap | Hash | Array | ArrayOfMaps

datatype ProgramType = UnspecifiedProgram | SocketFilter | Kprobe

datatype map_flag =
  BPF_F_NO_PREALLOC | BPF_F_RDONLY_PROG | BPF_F_MMAPABLE | BPF_F_INNER_MAP

record MapCreateAttr =
  MapType :: MapType
  KeySize :: "32 word"
  ValueSize :: "32 word"
  MaxEntries :: "32 word"
  MapFlags :: "map_flag set"
  InnerMapFd :: "32 word"
  MapName :: string

definition MapCreateAttr_zero :: MapCreateAttr where
  "MapCreateAttr_zero =
     \<lparr>MapType = UnspecifiedMap, KeySize = 0, ValueSize = 0, MaxEntries = 0, MapFlags = {},
      InnerMapFd = 0, MapName = []\<rparr>"

record ProgLoadAttr =
  ProgType :: ProgramType
  License :: string
  FuncInfoCnt :: "32 word"
  ProgBtfFd :: "32 word"

definition ProgLoadAttr_zero :: ProgLoadAttr where
  "ProgLoadAttr_zero = \<lparr>ProgType = UnspecifiedProgram, License = [], FuncInfoCnt = 0, ProgBtfFd = 0\<rparr>"

record MapUpdateBatchAttr =
  MapFd :: nat
  Count :: "32 word"

text \<open>
  A descriptor that a request names is a 32-bit field read as a signed number: it is
  valid when it is not negative and open in the table. \<^verbatim>\<open>^uint32(0)\<close> and
  \<^verbatim>\<open>math.MaxUint32\<close> read as -1.
\<close>

definition valid_fd :: "kernel \<Rightarrow> 32 word \<Rightarrow> bool" where
  "valid_fd k d = (0 \<le> sint d \<and> nat (sint d) \<in> set (open_fds k))"

text \<open>
  Modelled from the spec: the kernel's answer to a map creation (the kernel is not part of
  the sources). \<open>reply\<close> is what it answers to everything in the request but the descriptor
  the request names: an error, or \<open>None\<close> when it finds nothing wrong. A map of maps is
  created from an inner map, so a request for one that names no valid descriptor is never
  accepted: the intentionally invalid handle of section 4.3 gets the "no such handle"
  failure \<^verbatim>\<open>EBADF\<close> unless the kernel has rejected the request before looking at it.
\<close>

definition kernel_MapCreate :: "MapCreateAttr \<Rightarrow> error option \<Rightarrow> kernel \<Rightarrow> error option" where
  "kernel_MapCreate attr reply k =
     (case reply of
        Some e \<Rightarrow> Some e
      | None \<Rightarrow>
          if MapType attr = ArrayOfMaps \<and> \<not> valid_fd k (InnerMapFd attr)
          then Some (Errno EBADF) else None)"

text \<open>
  Modelled from the spec: the kernel's answer to a program load, in the same way. A load
  that brings function information (\<^verbatim>\<open>FuncInfoCnt\<close> not zero) needs the descriptor of its
  type information, and is never accepted when \<^verbatim>\<open>ProgBtfFd\<close> is no valid descriptor.
\<close>

definition kernel_ProgLoad :: "ProgLoadAttr \<Rightarrow> error option \<Rightarrow> kernel \<Rightarrow> error option" where
  "kernel_ProgLoad attr reply k =
     (case reply of
        Some e \<Rightarrow> Some e
      | None \<Rightarrow>
          if FuncInfoCnt attr \<noteq> 0 \<and> \<not> valid_fd k (ProgBtfFd attr)
          then Some (Errno EBADF) else None)"

text \<open>
  \<^verbatim>\<open>sys.MapCreate\<close>, \<^verbatim>\<open>sys.ProgLoad\<close> and \<^verbatim>\<open>sys.MapUpdateBatch\<close> are the system
  calls of \<^verbatim>\<open>internal/sys\<close>; the first two return the error of the kernel, or the
  descriptor that the kernel opens when it accepts the request.
\<close>

definition sys_MapCreate :: "MapCreateAttr \<Rightarrow> error option \<Rightarrow> kernel \<Rightarrow> (error + nat) \<times> kernel" where
  "sys_MapCreate attr reply k =
     (case kernel_MapCreate attr reply k of
        Some e \<Rightarrow> (Inl e, k)
      | None \<Rightarrow> (let (fd, k') = new_fd k in (Inr fd, k')))"

definition sys_ProgLoad :: "ProgLoadAttr \<Rightarrow> error option \<Rightarrow> kernel \<Rightarrow> (error + nat) \<times> kernel" where
  "sys_ProgLoad attr reply k =
     (case kernel_ProgLoad attr reply k of
        Some e \<Rightarrow> (Inl e, k)
      | None \<Rightarrow> (let (fd, k') = new_fd k in (Inr fd, k')))"

definition sys_MapUpdateBatch :: "MapUpdateBatchAttr \<Rightarrow> error option \<Rightarrow> error option" where
  "sys_MapUpdateBatch attr reply = reply"

text \<open>The \<^verbatim>\<open>err\<close> of a Go result pair \<^verbatim>\<open>(fd, err)\<close>.\<close>

definition err_of :: "error + 'a \<Rightarrow> error option" where
  "err_of r = (case r of Inl e \<Rightarrow> Some e | Inr x \<Rightarrow> None)"

text \<open>
  \<^verbatim>\<open>progLoad\<close>: the instructions are encoded and the bytes are sent to the kernel.
  \<open>marshal\<close> is the error of \<^verbatim>\<open>insns.Marshal\<close> (the encoder is package \<^verbatim>\<open>asm\<close>).
\<close>

definition progLoad ::
  "error option \<Rightarrow> ProgramType \<Rightarrow> string \<Rightarrow> error option \<Rightarrow> kernel \<Rightarrow> (error + nat) \<times> kernel"
where
  "progLoad marshal typ license reply k =
     (case marshal of
        Some err \<Rightarrow> (Inl err, k)
      | None \<Rightarrow> sys_ProgLoad (ProgLoadAttr_zero\<lparr>ProgType := typ, License := license\<rparr>) reply k)"

section \<open>The capability probes\<close>

text \<open>
  Each probe is the function handed to \<^verbatim>\<open>internal.NewFeatureTest\<close>. It returns the
  error of the Go function (\<open>None\<close> is nil: supported; \<open>Sentinel ErrNotSupported\<close>:
  unsupported) and the kernel after the call. \<open>isWindows\<close> is \<^verbatim>\<open>platform.IsWindows\<close>.
\<close>

definition haveNestedMaps :: "bool \<Rightarrow> error option \<Rightarrow> kernel \<Rightarrow> error option \<times> kernel" where
  "haveNestedMaps isWindows reply k =
     (if isWindows then (None, k)
      else
        let (r, k') = sys_MapCreate
              (MapCreateAttr_zero\<lparr>MapType := ArrayOfMaps, KeySize := 4, ValueSize := 4,
                 MaxEntries := 1, InnerMapFd := NOT 0\<rparr>) reply k;
            err = err_of r
        in if errors_Is err (Errno EINVAL) then (Some (Sentinel ErrNotSupported), k')
           else if errors_Is err (Errno EBADF) then (None, k')
           else (err, k'))"

definition haveMapMutabilityModifiers :: "error option \<Rightarrow> kernel \<Rightarrow> error option \<times> kernel" where
  "haveMapMutabilityModifiers reply k =
     (case sys_MapCreate
             (MapCreateAttr_zero\<lparr>MapType := Array, KeySize := 4, ValueSize := 4,
                MaxEntries := 1, MapFlags := {BPF_F_RDONLY_PROG}\<rparr>) reply k of
        (Inl err, k') \<Rightarrow> (Some (Sentinel ErrNotSupported), k')
      | (Inr m, k') \<Rightarrow> (None, FD_Close m k'))"

definition haveMmapableMaps :: "error option \<Rightarrow> kernel \<Rightarrow> error option \<times> kernel" where
  "haveMmapableMaps reply k =
     (case sys_MapCreate
             (MapCreateAttr_zero\<lparr>MapType := Array, KeySize := 4, ValueSize := 4,
                MaxEntries := 1, MapFlags := {BPF_F_MMAPABLE}\<rparr>) reply k of
        (Inl err, k') \<Rightarrow> (Some (Sentinel ErrNotSupported), k')
      | (Inr m, k') \<Rightarrow> (None, FD_Close m k'))"

definition haveInnerMaps :: "error option \<Rightarrow> kernel \<Rightarrow> error option \<times> kernel" where
  "haveInnerMaps reply k =
     (case sys_MapCreate
             (MapCreateAttr_zero\<lparr>MapType := Array, KeySize := 4, ValueSize := 4,
                MaxEntries := 1, MapFlags := {BPF_F_INNER_MAP}\<rparr>) reply k of
        (Inl err, k') \<Rightarrow> (Some (Sentinel ErrNotSupported), k')
      | (Inr m, k') \<Rightarrow> (None, FD_Close m k'))"

definition haveNoPreallocMaps :: "error option \<Rightarrow> kernel \<Rightarrow> error option \<times> kernel" where
  "haveNoPreallocMaps reply k =
     (case sys_MapCreate
             (MapCreateAttr_zero\<lparr>MapType := Hash, KeySize := 4, ValueSize := 4,
                MaxEntries := 1, MapFlags := {BPF_F_NO_PREALLOC}\<rparr>) reply k of
        (Inl err, k') \<Rightarrow> (Some (Sentinel ErrNotSupported), k')
      | (Inr m, k') \<Rightarrow> (None, FD_Close m k'))"

definition haveObjName :: "bool \<Rightarrow> error option \<Rightarrow> kernel \<Rightarrow> error option \<times> kernel" where
  "haveObjName isWindows reply k =
     (if isWindows then (None, k)
      else
        let attr = MapCreateAttr_zero\<lparr>MapType := Array, KeySize := 4, ValueSize := 4,
                     MaxEntries := 1, MapName := ''feature_test''\<rparr>
        in case sys_MapCreate attr reply k of
             (Inl err, k') \<Rightarrow> (Some (Sentinel ErrNotSupported), k')
           | (Inr fd, k') \<Rightarrow> (None, FD_Close fd k'))"

text \<open>
  \<open>haveObjName_result\<close> is what the memoised probe \<^verbatim>\<open>haveObjName()\<close> returns to this
  caller.
\<close>

definition objNameAllowsDot ::
  "bool \<Rightarrow> error option \<Rightarrow> error option \<Rightarrow> kernel \<Rightarrow> error option \<times> kernel"
where
  "objNameAllowsDot isWindows haveObjName_result reply k =
     (if isWindows then (None, k)
      else case haveObjName_result of
        Some err \<Rightarrow> (Some err, k)
      | None \<Rightarrow>
          let attr = MapCreateAttr_zero\<lparr>MapType := Array, KeySize := 4, ValueSize := 4,
                       MaxEntries := 1, MapName := ''.test''\<rparr>
          in case sys_MapCreate attr reply k of
               (Inl err, k') \<Rightarrow> (Some (Sentinel ErrNotSupported), k')
             | (Inr fd, k') \<Rightarrow> (None, FD_Close fd k'))"

text \<open>
  \<^verbatim>\<open>haveBatchAPI\<close>: \<^verbatim>\<open>defer fd.Close()\<close> runs on both returns that follow it. The
  errors of \<^verbatim>\<open>marshalMapSyscallInput\<close> are dropped by the source.
\<close>

definition haveBatchAPI :: "error option \<Rightarrow> error option \<Rightarrow> kernel \<Rightarrow> error option \<times> kernel" where
  "haveBatchAPI reply batch_reply k =
     (let maxEntries = 2;
          attr = MapCreateAttr_zero\<lparr>MapType := Hash, KeySize := 4, ValueSize := 4,
                   MaxEntries := maxEntries\<rparr>
      in case sys_MapCreate attr reply k of
           (Inl err, k') \<Rightarrow> (Some (Sentinel ErrNotSupported), k')
         | (Inr fd, k') \<Rightarrow>
             let err = sys_MapUpdateBatch \<lparr>MapFd = fd, Count = maxEntries\<rparr> batch_reply;
                 result = (if err \<noteq> None then Some (Sentinel ErrNotSupported) else None)
             in (result, FD_Close fd k'))"

definition haveProbeReadKernel :: "error option \<Rightarrow> error option \<Rightarrow> kernel \<Rightarrow> error option \<times> kernel" where
  "haveProbeReadKernel marshal reply k =
     (case progLoad marshal Kprobe ''GPL'' reply k of
        (Inl err, k') \<Rightarrow> (Some (Sentinel ErrNotSupported), k')
      | (Inr fd, k') \<Rightarrow> (None, FD_Close fd k'))"

definition haveBPFToBPFCalls :: "error option \<Rightarrow> error option \<Rightarrow> kernel \<Rightarrow> error option \<times> kernel" where
  "haveBPFToBPFCalls marshal reply k =
     (case progLoad marshal SocketFilter ''MIT'' reply k of
        (Inl err, k') \<Rightarrow> (Some (Sentinel ErrNotSupported), k')
      | (Inr fd, k') \<Rightarrow> (None, FD_Close fd k'))"

text \<open>
  \<^verbatim>\<open>haveSyscallWrapper\<close> works on tracefs and holds no file descriptor of its own.
  \<open>prefix\<close> is \<^verbatim>\<open>linux.PlatformPrefix()\<close>, \<open>goarch\<close> is \<^verbatim>\<open>runtime.GOARCH\<close>, \<open>rgroup\<close>
  the result of \<^verbatim>\<open>tracefs.RandomGroup\<close>, \<open>event\<close> the error of \<^verbatim>\<open>tracefs.NewEvent\<close>
  and \<open>closed\<close> the error of \<^verbatim>\<open>evt.Close()\<close>.
\<close>

definition haveSyscallWrapper ::
  "string \<Rightarrow> string \<Rightarrow> error + string \<Rightarrow> error option \<Rightarrow> error option \<Rightarrow> error option"
where
  "haveSyscallWrapper prefix goarch rgroup event closed =
     (if prefix = [] then
        Some (ErrorString (''unable to find the platform prefix for ('' @ goarch @ '')''))
      else case rgroup of
        Inl err \<Rightarrow> Some err
      | Inr g \<Rightarrow>
          if errors_Is event (Sentinel ErrNotExist) then Some (Sentinel ErrNotSupported)
          else if event \<noteq> None then event
          else closed)"

text \<open>
  Modelled from the spec: the events of tracefs (package \<^verbatim>\<open>tracefs\<close> is not among the
  sources). An event is a kernel object of its own, not a file descriptor.
  \<^verbatim>\<open>tracefs.NewEvent\<close> returns its error or creates an event; \<^verbatim>\<open>evt.Close()\<close> releases the
  event (section 4.3) and reports the error \<open>closed\<close>.
\<close>

record tracefs =
  events :: "nat list"

definition tracefs_NewEvent :: "error option \<Rightarrow> tracefs \<Rightarrow> (error + nat) \<times> tracefs" where
  "tracefs_NewEvent event t =
     (case event of
        Some e \<Rightarrow> (Inl e, t)
      | None \<Rightarrow> (let evt = lowest_free (events t) in (Inr evt, t\<lparr>events := evt # events t\<rparr>)))"

definition Event_Close :: "nat \<Rightarrow> error option \<Rightarrow> tracefs \<Rightarrow> error option \<times> tracefs" where
  "Event_Close evt closed t = (closed, t\<lparr>events := removeAll evt (events t)\<rparr>)"

text \<open>
  \<^verbatim>\<open>haveSyscallWrapper\<close> once more, with the events of tracefs as explicit state: the
  same branches, and next to the error the events that exist when the probe returns.
\<close>

definition haveSyscallWrapper_traced ::
  "string \<Rightarrow> string \<Rightarrow> error + string \<Rightarrow> error option \<Rightarrow> error option \<Rightarrow> tracefs
     \<Rightarrow> error option \<times> tracefs"
where
  "haveSyscallWrapper_traced prefix goarch rgroup event closed t =
     (if prefix = [] then
        (Some (ErrorString (''unable to find the platform prefix for ('' @ goarch @ '')'')), t)
      else case rgroup of
        Inl err \<Rightarrow> (Some err, t)
      | Inr g \<Rightarrow>
          (case tracefs_NewEvent event t of
             (Inl err, t') \<Rightarrow>
               if errors_Is (Some err) (Sentinel ErrNotExist)
               then (Some (Sentinel ErrNotSupported), t')
               else (Some err, t')
           | (Inr evt, t') \<Rightarrow> Event_Close evt closed t'))"

definition haveProgramExtInfos :: "error option \<Rightarrow> error option \<Rightarrow> kernel \<Rightarrow> error option \<times> kernel" where
  "haveProgramExtInfos marshal reply k =
     (case marshal of
        Some err \<Rightarrow> (Some err, k)
      | None \<Rightarrow>
          let (r, k') = sys_ProgLoad
                (ProgLoadAttr_zero\<lparr>ProgType := SocketFilter, License := ''MIT'',
                   FuncInfoCnt := 1, ProgBtfFd := NOT 0\<rparr>) reply k;
              err = err_of r
          in if errors_Is err (Errno EBADF) then (None, k')
             else if errors_Is err (Errno E2BIG) then (Some (Sentinel ErrNotSupported), k')
             else (err, k'))"

section \<open>Instructions and program specifications\<close>

text \<open>
  Modelled from the spec: the instruction type of package \<^verbatim>\<open>asm\<close>, which is not among
  the sources. An instruction is one fixed-shape operation with two optional tags, a
  symbol and a reference; \<open>rel_offset\<close> is the field that holds the position-relative
  offset of a call once it is resolved.
\<close>

record insn =
  operation :: nat
  symbol :: "string option"
  reference :: "string option"
  rel_offset :: int

text \<open>
  Modelled from the spec: an instruction as the constructors of package \<^verbatim>\<open>asm\<close> (not
  among the sources) return it to the tests, without tags: \<^verbatim>\<open>asm.Return()\<close>,
  \<^verbatim>\<open>asm.Mov.Imm(...)\<close>, a call. The operation is opaque.
\<close>

definition plain :: "nat \<Rightarrow> insn" where
  "plain opc = \<lparr>operation = opc, symbol = None, reference = None, rel_offset = 0\<rparr>"

text \<open>
  Modelled from the spec: \<^verbatim>\<open>Instruction.WithSymbol\<close> of package \<^verbatim>\<open>asm\<close>, which sets the
  symbol tag.
\<close>

definition WithSymbol :: "insn \<Rightarrow> string \<Rightarrow> insn" where
  "WithSymbol i s = i\<lparr>symbol := Some s\<rparr>"

text \<open>
  Modelled from the spec: \<^verbatim>\<open>Instruction.WithReference\<close> of package \<^verbatim>\<open>asm\<close>, which sets
  the reference tag, as \<^verbatim>\<open>asm.Call.Label\<close> does for a call.
\<close>

definition WithReference :: "insn \<Rightarrow> string \<Rightarrow> insn" where
  "WithReference i r = i\<lparr>reference := Some r\<rparr>"

text \<open>
  \<^verbatim>\<open>ProgramSpec\<close> with the fields the tests set. A universe of programs is the Go map
  from names to specifications; it is finite, and \<open>map_of\<close> looks a name up.
\<close>

record ProgramSpec =
  Name :: string
  Type :: ProgramType
  License :: string
  Instructions :: "insn list"

type_synonym universe = "(string \<times> ProgramSpec) list"

text \<open>Modelled from the spec: the symbol tags of an instruction sequence, in order.\<close>

definition symbols :: "insn list \<Rightarrow> string list" where
  "symbols insns = List.map_filter symbol insns"

text \<open>
  Modelled from the spec: the reference tags of an instruction sequence, in order
  (\<^verbatim>\<open>Instructions.FunctionReferences\<close> of package \<^verbatim>\<open>asm\<close>).
\<close>

definition references :: "insn list \<Rightarrow> string list" where
  "references insns = List.map_filter reference insns"

section \<open>The symbol splitter\<close>

text \<open>Modelled from the spec: the two errors that section 4.1 names for the splitter.\<close>

datatype split_error = MissingLeadingSymbol | DuplicateSymbol

text \<open>
  Modelled from the spec: the loop of \<^verbatim>\<open>splitSymbols\<close> (\<^verbatim>\<open>linker.go\<close> is not among the
  sources). \<open>cur\<close> is the symbol of the block being read and \<open>block\<close> its instructions so
  far; a block runs to the next symbol tag or to the end of the input.
\<close>

fun split_blocks :: "string \<Rightarrow> insn list \<Rightarrow> insn list \<Rightarrow> (string \<times> insn list) list" where
  "split_blocks cur block [] = [(cur, block)]"
| "split_blocks cur block (i # rest) =
     (case symbol i of
        None \<Rightarrow> split_blocks cur (block @ [i]) rest
      | Some s \<Rightarrow> (cur, block) # split_blocks s [i] rest)"

text \<open>
  Modelled from the spec: \<^verbatim>\<open>splitSymbols\<close>. Empty input and input whose first
  instruction has no symbol tag are refused as missing the leading symbol, a symbol name
  that appears more than once as a duplicate symbol; the result maps each symbol name to
  its block.
\<close>

definition splitSymbols :: "insn list \<Rightarrow> split_error + (string \<rightharpoonup> insn list)" where
  "splitSymbols insns =
     (case insns of
        [] \<Rightarrow> Inl MissingLeadingSymbol
      | i # rest \<Rightarrow>
          (case symbol i of
             None \<Rightarrow> Inl MissingLeadingSymbol
           | Some s \<Rightarrow>
               if \<not> distinct (symbols insns) then Inl DuplicateSymbol
               else Inr (map_of (split_blocks s [i] rest))))"

section \<open>The reference linker\<close>

text \<open>
  Modelled from the spec: the unsatisfied-reference error, which names the missing symbol.
  The spec does not say what linking a name outside the universe does; \<open>UnknownProgram\<close>
  keeps that outcome apart from every result the spec describes.
\<close>

datatype link_error = UnsatisfiedReference string | UnknownProgram string

text \<open>
  Modelled from the spec: step 2 of the linker. The first instruction appended for a
  subprogram carries the subprogram's name as its symbol tag.
\<close>

definition subprogram_block :: "string \<Rightarrow> insn list \<Rightarrow> insn list" where
  "subprogram_block name insns =
     (case insns of [] \<Rightarrow> [] | i # rest \<Rightarrow> i\<lparr>symbol := Some name\<rparr> # rest)"

text \<open>
  Modelled from the spec: the names that the instructions of each program of the universe
  refer to, as \<^verbatim>\<open>flattenInstructions\<close> (not among the sources) receives them in its third
  argument.
\<close>

definition function_references :: "universe \<Rightarrow> string \<Rightarrow> string list" where
  "function_references progs name =
     (case map_of progs name of None \<Rightarrow> [] | Some prog \<Rightarrow> references (Instructions prog))"

text \<open>
  Modelled from the spec: step 1 of the linker, the traversal of the references with a
  visited set keyed by subprogram name. A name is marked visited before its own references
  are followed; a name that was visited, or that names no program of the universe, adds
  nothing. Every turn either shortens the pending list or marks one more program of the
  finite universe, so the traversal ends on every call graph, cyclic ones included.
\<close>

function merge_pending ::
  "universe \<Rightarrow> (string \<Rightarrow> string list) \<Rightarrow> string list \<Rightarrow> string list \<Rightarrow> insn list \<Rightarrow> insn list"
where
  "merge_pending progs refs visited [] insns = insns"
| "merge_pending progs refs visited (ref # pending) insns =
     (if ref \<in> set visited then merge_pending progs refs visited pending insns
      else case map_of progs ref of
        None \<Rightarrow> merge_pending progs refs visited pending insns
      | Some sub \<Rightarrow>
          merge_pending progs refs (ref # visited) (pending @ refs ref)
            (insns @ subprogram_block ref (Instructions sub)))"
  by pat_completeness auto
termination
proof (relation "inv_image (less_than <*lex*> less_than)
    (\<lambda>(progs, refs, visited, pending, insns).
       (card (fst ` set progs - set visited), length pending))", goal_cases)
  case 1
  show ?case
    by (intro wf_inv_image wf_lex_prod wf_less_than)
next
  case (2 progs refs visited ref pending insns)
  show ?case
    by simp
next
  case (3 progs refs visited ref pending insns)
  show ?case
    by simp
next
  case (4 progs refs visited ref pending insns sub)
  from \<open>map_of progs ref = Some sub\<close> have "ref \<in> fst ` set progs"
    by (metis domI dom_map_of_conv_image_fst)
  with \<open>ref \<notin> set visited\<close> have "ref \<in> fst ` set progs - set visited"
    by simp
  then have "card ((fst ` set progs - set visited) - {ref}) < card (fst ` set progs - set visited)"
    by (intro card_Diff1_less) simp_all
  moreover have "fst ` set progs - set (ref # visited) = (fst ` set progs - set visited) - {ref}"
    by auto
  ultimately have "card (fst ` set progs - set (ref # visited)) < card (fst ` set progs - set visited)"
    by simp
  then show ?case
    by simp
qed

text \<open>
  Modelled from the spec: \<^verbatim>\<open>flattenInstructions(name, progs, refs)\<close>, steps 1, 2 and 4
  of the linker. An entry without outstanding references is returned as it is; otherwise
  the subprograms it reaches are appended to its instructions, the entry itself being
  marked visited from the start. The spec leaves linking a name outside the universe
  undefined: the result is \<open>None\<close> there.
\<close>

definition flattenInstructions ::
  "string \<Rightarrow> universe \<Rightarrow> (string \<Rightarrow> string list) \<Rightarrow> insn list option"
where
  "flattenInstructions name progs refs =
     (case map_of progs name of
        None \<Rightarrow> None
      | Some prog \<Rightarrow>
          let progRefs = refs name
          in if progRefs = [] then Some (Instructions prog)
             else Some (merge_pending progs refs [name] progRefs (Instructions prog)))"

text \<open>
  Modelled from the spec: step 3 of the linker, the relocation done when package \<^verbatim>\<open>asm\<close>
  (not among the sources) encodes the stream. The target of a reference is the instruction
  that carries the referenced name as its symbol: \<open>find_symbol\<close> is its index.
\<close>

fun find_symbol :: "string \<Rightarrow> insn list \<Rightarrow> nat option" where
  "find_symbol s [] = None"
| "find_symbol s (i # rest) =
     (if symbol i = Some s then Some 0 else map_option Suc (find_symbol s rest))"

text \<open>
  Modelled from the spec: one reference-tagged instruction is rewritten to the signed
  distance, in instructions, from the call site \<open>idx\<close> to the target; a reference whose
  name is the symbol of no instruction of the merged stream fails the link with the
  unsatisfied-reference error that names it.
\<close>

definition relocate_insn :: "insn list \<Rightarrow> nat \<Rightarrow> insn \<Rightarrow> link_error + insn" where
  "relocate_insn stream idx i =
     (case reference i of
        None \<Rightarrow> Inr i
      | Some r \<Rightarrow>
          (case find_symbol r stream of
             None \<Rightarrow> Inl (UnsatisfiedReference r)
           | Some target \<Rightarrow> Inr (i\<lparr>rel_offset := int target - int idx\<rparr>)))"

text \<open>
  Modelled from the spec: the instructions from index \<open>idx\<close> on are rewritten in order; the
  first failure is the result.
\<close>

fun relocate_from :: "insn list \<Rightarrow> nat \<Rightarrow> insn list \<Rightarrow> link_error + insn list" where
  "relocate_from stream idx [] = Inr []"
| "relocate_from stream idx (i # rest) =
     (case relocate_insn stream idx i of
        Inl e \<Rightarrow> Inl e
      | Inr i' \<Rightarrow>
          (case relocate_from stream (Suc idx) rest of
             Inl e \<Rightarrow> Inl e
           | Inr rest' \<Rightarrow> Inr (i' # rest')))"

text \<open>Modelled from the spec: every reference-tagged instruction of the stream is rewritten.\<close>

definition relocate :: "insn list \<Rightarrow> link_error + insn list" where
  "relocate stream = relocate_from stream 0 stream"

text \<open>Modelled from the spec: linking one entry of a universe, merge and relocation.\<close>

definition link :: "string \<Rightarrow> universe \<Rightarrow> link_error + insn list" where
  "link name progs =
     (case flattenInstructions name progs (function_references progs) of
        None \<Rightarrow> Inl (UnknownProgram name)
      | Some merged \<Rightarrow> relocate merged)"

text \<open>
  Modelled from the spec: the call graph of a universe (section 3), with an edge from a
  program to each program of the universe that one of its reference tags names.
\<close>

definition calls :: "universe \<Rightarrow> (string \<times> string) set" where
  "calls progs = {(a, b). b \<in> set (function_references progs a) \<and> map_of progs b \<noteq> None}"

text \<open>Modelled from the spec: the names that the entry reaches in the call graph, itself included.\<close>

definition reachable :: "universe \<Rightarrow> string \<Rightarrow> string set" where
  "reachable progs name = {b. (name, b) \<in> (calls progs)\<^sup>*}"

text \<open>
  Modelled from the spec: the instructions with which a reachable program enters the
  merged stream, the entry with its own, every other program with the block of step 2.
\<close>

definition merged_block :: "universe \<Rightarrow> string \<Rightarrow> string \<Rightarrow> insn list" where
  "merged_block progs name b =
     (case map_of progs b of
        None \<Rightarrow> []
      | Some prog \<Rightarrow>
          if b = name then Instructions prog else subprogram_block b (Instructions prog))"

text \<open>
  Modelled from the spec: every reference reachable from the entry is satisfied, that is,
  each name that a reachable program refers to is the symbol of an instruction with which
  a reachable program enters the merged stream.
\<close>

definition satisfied :: "universe \<Rightarrow> string \<Rightarrow> bool" where
  "satisfied progs name =
     (\<forall>a r. a \<in> reachable progs name \<and> r \<in> set (function_references progs a) \<longrightarrow>
        (\<exists>b. b \<in> reachable progs name \<and> r \<in> set (symbols (merged_block progs name b))))"

text \<open>
  Modelled from the spec: the universe of the mutual reference property, in which program
  \<^verbatim>\<open>A\<close> calls \<^verbatim>\<open>B\<close> and \<^verbatim>\<open>B\<close> calls \<^verbatim>\<open>A\<close>. This is program \<^verbatim>\<open>A\<close>.
\<close>

definition mutual_A :: ProgramSpec where
  "mutual_A =
     \<lparr>Name = ''A'', Type = SocketFilter, License = ''MIT'',
      Instructions = [WithSymbol (plain 183) ''A'', WithReference (plain 133) ''B'', plain 149]\<rparr>"

text \<open>Modelled from the spec: program \<^verbatim>\<open>B\<close> of that universe, which calls \<^verbatim>\<open>A\<close>.\<close>

definition mutual_B :: ProgramSpec where
  "mutual_B =
     \<lparr>Name = ''B'', Type = SocketFilter, License = ''MIT'',
      Instructions = [WithSymbol (WithReference (plain 133) ''A'') ''B'', plain 149]\<rparr>"

text \<open>Modelled from the spec: the universe of the two.\<close>

definition mutual_universe :: universe where
  "mutual_universe = [(''A'', mutual_A), (''B'', mutual_B)]"

text \<open>
  The universe of the test \<^verbatim>\<open>TestFindReferences\<close>: the entry point calls \<^verbatim>\<open>my_func\<close>,
  which calls \<^verbatim>\<open>my_other_func\<close>.
\<close>

definition test_progs :: universe where
  "test_progs =
     [(''entrypoint'',
       \<lparr>Name = [], Type = SocketFilter, License = ''MIT'',
        Instructions = [plain 191, WithReference (plain 133) ''my_func'', plain 149]\<rparr>),
      (''my_other_func'',
       \<lparr>Name = [], Type = UnspecifiedProgram, License = [],
        Instructions = [WithSymbol (plain 24) ''my_other_func'', plain 149]\<rparr>),
      (''my_func'',
       \<lparr>Name = [], Type = UnspecifiedProgram, License = [],
        Instructions =
          [WithSymbol (WithReference (plain 133) ''my_other_func'') ''my_func'', plain 149]\<rparr>)]"







text \<open>
  Modelled from the spec: the universe in which the instruction list of one specification
  has been replaced, the other specifications being left as they are.
\<close>

definition set_instructions :: "string \<Rightarrow> insn list \<Rightarrow> universe \<Rightarrow> universe" where
  "set_instructions name insns progs =
     map (\<lambda>(n, prog). if n = name then (n, prog\<lparr>Instructions := insns\<rparr>) else (n, prog)) progs"

text \<open>
  Modelled from the spec: linking with its side effect (section 4.2). The result is that
  of \<open>link\<close>; the instruction list of the entry's specification is extended in place, so
  that after the call it is the merged stream, whether the relocation succeeded or not.
  For an entry without references the merged stream is its own instruction list, and
  nothing changes.
\<close>

definition link_in_place :: "string \<Rightarrow> universe \<Rightarrow> (link_error + insn list) \<times> universe" where
  "link_in_place name progs =
     (case flattenInstructions name progs (function_references progs) of
        None \<Rightarrow> (Inl (UnknownProgram name), progs)
      | Some merged \<Rightarrow> (relocate merged, set_instructions name merged progs))"


section \<open>Error translation of map operations\<close>

lemma errors_is_Errno: "errors_is (Errno n) t = (Errno n = t \<or> errno_Is n t)"
  by (subst errors_is.simps) simp

lemma errors_is_Sentinel: "errors_is (Sentinel s) t = (Sentinel s = t)"
  by (subst errors_is.simps) simp

lemma errors_is_ErrorString: "errors_is (ErrorString m) t = (ErrorString m = t)"
  by (subst errors_is.simps) simp

lemma errors_is_SysError:
  "errors_is (SysError b n) t =
     (SysError b n = t \<or> t = Sentinel b \<or> Errno n = t \<or> errno_Is n t)"
  by (subst errors_is.simps) (simp add: errors_is_Errno)

lemma errors_is_Wrapped: "errors_is (Wrapped m e) t = (Wrapped m e = t \<or> errors_is e t)"
  by (subst errors_is.simps) simp

lemmas errors_is_cases =
  errors_is_Errno errors_is_Sentinel errors_is_ErrorString errors_is_SysError errors_is_Wrapped

text \<open>An error chain ends in at most one error number.\<close>

lemma errors_is_errno_unique:
  "errors_is e (Errno a) \<Longrightarrow> errors_is e (Errno b) \<Longrightarrow> a = b"
  by (induction e) (auto simp: errors_is_cases)

text \<open>The three package-level errors answer for their domain error and for their error number only.\<close>

lemma sysErrKeyNotExist_Is:
  "errors_is sysErrKeyNotExist t
     = (t = SysError ErrKeyNotExist ENOENT \<or> t = Sentinel ErrKeyNotExist \<or>
        t = Errno ENOENT \<or> t = Sentinel ErrNotExist)"
  by (cases "(ENOENT, t)" rule: errno_Is.cases)
    (auto simp: sysErrKeyNotExist_def errors_is_SysError)

lemma sysErrKeyExist_Is:
  "errors_is sysErrKeyExist t
     = (t = SysError ErrKeyExist EEXIST \<or> t = Sentinel ErrKeyExist \<or>
        t = Errno EEXIST \<or> t = Sentinel ErrExist)"
  by (cases "(EEXIST, t)" rule: errno_Is.cases)
    (auto simp: sysErrKeyExist_def errors_is_SysError)

lemma sysErrNotSupported_Is:
  "errors_is sysErrNotSupported t
     = (t = SysError ErrNotSupported ENOTSUPP \<or> t = Sentinel ErrNotSupported \<or>
        t = Errno ENOTSUPP)"
  by (cases "(ENOTSUPP, t)" rule: errno_Is.cases)
    (auto simp: sysErrNotSupported_def errors_is_SysError)

text \<open>
  Claim C4. \<^verbatim>\<open>wrapMapError\<close> keeps nil. An error that is \<^verbatim>\<open>ENOENT\<close> becomes the
  package-level error that answers \<^verbatim>\<open>errors.Is\<close> for the domain error \<^verbatim>\<open>ErrKeyNotExist\<close>
  (and still for \<^verbatim>\<open>ENOENT\<close>, and for neither of the other two domain errors); one that is
  \<^verbatim>\<open>EEXIST\<close> becomes the error that answers for \<^verbatim>\<open>ErrKeyExist\<close>, one that is
  \<^verbatim>\<open>ENOTSUPP\<close> the error that answers for \<^verbatim>\<open>ErrNotSupported\<close>, in the same way. An
  error that is \<^verbatim>\<open>E2BIG\<close> is wrapped in the message "key too big for map", unwraps to the
  original error and still answers for every target the original answered for. Every
  other error is returned as it came. And only so: the result answers for one of the three
  domain errors only if the error was the matching error number, or answered for that
  domain error already. The error values here have one chain of causes, which ends in at
  most one error number, so at most one of the four tests of the source holds.
\<close>

theorem wrapMapError_translation:
  "wrapMapError None = None \<and>
   (errors_Is (Some e) (Errno ENOENT) \<longrightarrow>
      wrapMapError (Some e) = Some sysErrKeyNotExist \<and>
      errors_Is (wrapMapError (Some e)) (Sentinel ErrKeyNotExist) \<and>
      errors_Is (wrapMapError (Some e)) (Errno ENOENT) \<and>
      \<not> errors_Is (wrapMapError (Some e)) (Sentinel ErrKeyExist) \<and>
      \<not> errors_Is (wrapMapError (Some e)) (Sentinel ErrNotSupported)) \<and>
   (errors_Is (Some e) (Errno EEXIST) \<longrightarrow>
      wrapMapError (Some e) = Some sysErrKeyExist \<and>
      errors_Is (wrapMapError (Some e)) (Sentinel ErrKeyExist) \<and>
      errors_Is (wrapMapError (Some e)) (Errno EEXIST) \<and>
      \<not> errors_Is (wrapMapError (Some e)) (Sentinel ErrKeyNotExist) \<and>
      \<not> errors_Is (wrapMapError (Some e)) (Sentinel ErrNotSupported)) \<and>
   (errors_Is (Some e) (Errno ENOTSUPP) \<longrightarrow>
      wrapMapError (Some e) = Some sysErrNotSupported \<and>
      errors_Is (wrapMapError (Some e)) (Sentinel ErrNotSupported) \<and>
      errors_Is (wrapMapError (Some e)) (Errno ENOTSUPP) \<and>
      \<not> errors_Is (wrapMapError (Some e)) (Sentinel ErrKeyNotExist) \<and>
      \<not> errors_Is (wrapMapError (Some e)) (Sentinel ErrKeyExist)) \<and>
   (errors_Is (Some e) (Errno E2BIG) \<longrightarrow>
      wrapMapError (Some e) = Some (Wrapped ''key too big for map: %w'' e) \<and>
      Unwrap (Wrapped ''key too big for map: %w'' e) = Some e \<and>
      (\<forall>target. errors_Is (Some e) target \<longrightarrow> errors_Is (wrapMapError (Some e)) target)) \<and>
   (\<not> errors_Is (Some e) (Errno ENOENT) \<and> \<not> errors_Is (Some e) (Errno EEXIST) \<and>
    \<not> errors_Is (Some e) (Errno ENOTSUPP) \<and> \<not> errors_Is (Some e) (Errno E2BIG) \<longrightarrow>
      wrapMapError (Some e) = Some e) \<and>
   (errors_Is (wrapMapError (Some e)) (Sentinel ErrKeyNotExist) \<longrightarrow>
      errors_Is (Some e) (Errno ENOENT) \<or> errors_Is (Some e) (Sentinel ErrKeyNotExist)) \<and>
   (errors_Is (wrapMapError (Some e)) (Sentinel ErrKeyExist) \<longrightarrow>
      errors_Is (Some e) (Errno EEXIST) \<or> errors_Is (Some e) (Sentinel ErrKeyExist)) \<and>
   (errors_Is (wrapMapError (Some e)) (Sentinel ErrNotSupported) \<longrightarrow>
      errors_Is (Some e) (Errno ENOTSUPP) \<or> errors_Is (Some e) (Sentinel ErrNotSupported))"
proof -
  have u: "\<And>a b. errors_is e (Errno a) \<Longrightarrow> errors_is e (Errno b) \<Longrightarrow> a = b"
    by (rule errors_is_errno_unique)
  show ?thesis
    unfolding wrapMapError_def errors_Is_def
    by (auto simp: errors_is_Wrapped sysErrKeyNotExist_Is sysErrKeyExist_Is sysErrNotSupported_Is
        dest: u)
qed

text \<open>
  The translation at five errors: a wrapped \<^verbatim>\<open>ENOENT\<close>, \<^verbatim>\<open>EEXIST\<close>, \<^verbatim>\<open>ENOTSUPP\<close>,
  \<^verbatim>\<open>E2BIG\<close> and, as an error that is none of the four, \<^verbatim>\<open>EPERM\<close>. The first three
  results answer for the domain error, which the error that came in did not.
\<close>

theorem wrapMapError_translation_witness:
  "errors_Is (Some (Wrapped ''lookup: %w'' (Errno ENOENT))) (Errno ENOENT) \<and>
   \<not> errors_Is (Some (Wrapped ''lookup: %w'' (Errno ENOENT))) (Sentinel ErrKeyNotExist) \<and>
   wrapMapError (Some (Wrapped ''lookup: %w'' (Errno ENOENT))) = Some sysErrKeyNotExist \<and>
   errors_Is (wrapMapError (Some (Wrapped ''lookup: %w'' (Errno ENOENT)))) (Sentinel ErrKeyNotExist) \<and>
   errors_Is (Some (Errno EEXIST)) (Errno EEXIST) \<and>
   \<not> errors_Is (Some (Errno EEXIST)) (Sentinel ErrKeyExist) \<and>
   wrapMapError (Some (Errno EEXIST)) = Some sysErrKeyExist \<and>
   errors_Is (wrapMapError (Some (Errno EEXIST))) (Sentinel ErrKeyExist) \<and>
   errors_Is (Some (Errno ENOTSUPP)) (Errno ENOTSUPP) \<and>
   \<not> errors_Is (Some (Errno ENOTSUPP)) (Sentinel ErrNotSupported) \<and>
   wrapMapError (Some (Errno ENOTSUPP)) = Some sysErrNotSupported \<and>
   errors_Is (wrapMapError (Some (Errno ENOTSUPP))) (Sentinel ErrNotSupported) \<and>
   errors_Is (Some (Errno E2BIG)) (Errno E2BIG) \<and>
   wrapMapError (Some (Errno E2BIG)) = Some (Wrapped ''key too big for map: %w'' (Errno E2BIG)) \<and>
   errors_Is (wrapMapError (Some (Errno E2BIG))) (Errno E2BIG) \<and>
   \<not> errors_Is (Some (Errno EPERM)) (Errno ENOENT) \<and>
   \<not> errors_Is (Some (Errno EPERM)) (Errno EEXIST) \<and>
   \<not> errors_Is (Some (Errno EPERM)) (Errno ENOTSUPP) \<and>
   \<not> errors_Is (Some (Errno EPERM)) (Errno E2BIG) \<and>
   wrapMapError (Some (Errno EPERM)) = Some (Errno EPERM) \<and>
   \<not> errors_Is (wrapMapError (Some (Errno EPERM))) (Sentinel ErrKeyNotExist)"
proof -
  have h1: "errors_Is (Some (Wrapped ''lookup: %w'' (Errno ENOENT))) (Errno ENOENT)"
    by (simp add: errors_Is_def errors_is_cases)
  have h2: "errors_Is (Some (Errno EEXIST)) (Errno EEXIST)"
    by (simp add: errors_Is_def errors_is_cases)
  have h3: "errors_Is (Some (Errno ENOTSUPP)) (Errno ENOTSUPP)"
    by (simp add: errors_Is_def errors_is_cases)
  have h4: "errors_Is (Some (Errno E2BIG)) (Errno E2BIG)"
    by (simp add: errors_Is_def errors_is_cases)
  have h5: "\<not> errors_Is (Some (Errno EPERM)) (Errno ENOENT) \<and>
      \<not> errors_Is (Some (Errno EPERM)) (Errno EEXIST) \<and>
      \<not> errors_Is (Some (Errno EPERM)) (Errno ENOTSUPP) \<and>
      \<not> errors_Is (Some (Errno EPERM)) (Errno E2BIG)"
    by (simp add: errors_Is_def errors_is_cases)
  have n: "\<not> errors_Is (Some (Wrapped ''lookup: %w'' (Errno ENOENT))) (Sentinel ErrKeyNotExist)"
    "\<not> errors_Is (Some (Errno EEXIST)) (Sentinel ErrKeyExist)"
    "\<not> errors_Is (Some (Errno ENOTSUPP)) (Sentinel ErrNotSupported)"
    "\<not> errors_Is (Some (Errno EPERM)) (Sentinel ErrKeyNotExist)"
    by (simp_all add: errors_Is_def errors_is_cases)
  have c1: "wrapMapError (Some (Wrapped ''lookup: %w'' (Errno ENOENT))) = Some sysErrKeyNotExist \<and>
      errors_Is (wrapMapError (Some (Wrapped ''lookup: %w'' (Errno ENOENT)))) (Sentinel ErrKeyNotExist)"
    using wrapMapError_translation
      [of "Wrapped ''lookup: %w'' (Errno ENOENT)", THEN conjunct2, THEN conjunct1, THEN mp, OF h1]
    by blast
  have c2: "wrapMapError (Some (Errno EEXIST)) = Some sysErrKeyExist \<and>
      errors_Is (wrapMapError (Some (Errno EEXIST))) (Sentinel ErrKeyExist)"
    using wrapMapError_translation
      [of "Errno EEXIST", THEN conjunct2, THEN conjunct2, THEN conjunct1, THEN mp, OF h2]
    by blast
  have c3: "wrapMapError (Some (Errno ENOTSUPP)) = Some sysErrNotSupported \<and>
      errors_Is (wrapMapError (Some (Errno ENOTSUPP))) (Sentinel ErrNotSupported)"
    using wrapMapError_translation
      [of "Errno ENOTSUPP", THEN conjunct2, THEN conjunct2, THEN conjunct2, THEN conjunct1,
        THEN mp, OF h3]
    by blast
  have c4: "wrapMapError (Some (Errno E2BIG)) = Some (Wrapped ''key too big for map: %w'' (Errno E2BIG))
      \<and> errors_Is (wrapMapError (Some (Errno E2BIG))) (Errno E2BIG)"
    using h4 wrapMapError_translation
      [of "Errno E2BIG", THEN conjunct2, THEN conjunct2, THEN conjunct2, THEN conjunct2,
        THEN conjunct1, THEN mp, OF h4]
    by blast
  have c5: "wrapMapError (Some (Errno EPERM)) = Some (Errno EPERM)"
    using wrapMapError_translation
      [of "Errno EPERM", THEN conjunct2, THEN conjunct2, THEN conjunct2, THEN conjunct2,
        THEN conjunct2, THEN conjunct1, THEN mp, OF h5] .
  have c6: "\<not> errors_Is (wrapMapError (Some (Errno EPERM))) (Sentinel ErrKeyNotExist)"
    using h5 n(4) wrapMapError_translation
      [of "Errno EPERM", THEN conjunct2, THEN conjunct2, THEN conjunct2, THEN conjunct2,
        THEN conjunct2, THEN conjunct2, THEN conjunct1]
    by blast
  show ?thesis
    using h1 h2 h3 h4 h5 n c1 c2 c3 c4 c5 c6 by blast
qed

section \<open>Sanitised names\<close>

lemma spec_kept_iff:
  "spec_kept c \<longleftrightarrow>
     (65 \<le> c \<and> c \<le> 90) \<or> (97 \<le> c \<and> c \<le> 122) \<or> (48 \<le> c \<and> c \<le> 57) \<or> c = 46 \<or> c = 95"
  unfolding spec_kept_def spec_kept_characters_def rune_lit_def
  by (simp add: image_iff) arith

lemma sanitize_rune_kept: "sanitize_rune r c = (if spec_kept c then c else r)"
  unfolding sanitize_rune_def spec_kept_iff rune_lit_def by simp

lemma kept_valid: "spec_kept c \<Longrightarrow> ValidRune c \<and> 0 \<le> c"
  unfolding spec_kept_iff ValidRune_def by arith

lemma WriteRune_kept: "spec_kept c \<Longrightarrow> WriteRune c = c"
  using kept_valid [of c] by (simp add: WriteRune_def)

lemma sanitizeName_negative: "r < 0 \<Longrightarrow> sanitizeName name r = filter spec_kept name"
  unfolding sanitizeName_def
  by (induction name) (auto simp: sanitize_rune_kept Let_def WriteRune_kept dest: kept_valid)

lemma sanitizeName_written:
  "0 \<le> r \<Longrightarrow> sanitizeName name r = map (\<lambda>c. if spec_kept c then c else WriteRune r) name"
  unfolding sanitizeName_def
  by (induction name) (auto simp: sanitize_rune_kept Let_def WriteRune_kept dest: kept_valid)

text \<open>
  Claim C5. \<^verbatim>\<open>sanitizeName\<close> keeps exactly the letters, digits, dot and underscore:
  with a negative replacement every other character is deleted, and with a replacement
  that is a code point every other character is replaced by it (in general by the
  replacement as \<^verbatim>\<open>WriteRune\<close> writes it). \<^verbatim>\<open>maybeFillObjName\<close> submits the empty name
  when the object-name probe reports not supported; otherwise, when the dot probe reports
  not supported, it submits the sanitised name with every dot removed.
\<close>

theorem sanitizeName_maybeFillObjName:
  "(r < 0 \<longrightarrow> sanitizeName name r = filter spec_kept name) \<and>
   (0 \<le> r \<longrightarrow> sanitizeName name r = map (\<lambda>c. if spec_kept c then c else WriteRune r) name) \<and>
   (ValidRune r \<longrightarrow> sanitizeName name r = map (\<lambda>c. if spec_kept c then c else r) name) \<and>
   (errors_Is haveObjName_result (Sentinel ErrNotSupported) \<longrightarrow>
      maybeFillObjName haveObjName_result dot_result zeroObjName NewObjName name = zeroObjName) \<and>
   (\<not> errors_Is haveObjName_result (Sentinel ErrNotSupported) \<and>
    errors_Is dot_result (Sentinel ErrNotSupported) \<longrightarrow>
      maybeFillObjName haveObjName_result dot_result zeroObjName NewObjName name =
        NewObjName (filter (\<lambda>c. c \<noteq> rune_lit CHR ''.'') (filter spec_kept name))) \<and>
   (\<not> errors_Is haveObjName_result (Sentinel ErrNotSupported) \<and>
    \<not> errors_Is dot_result (Sentinel ErrNotSupported) \<longrightarrow>
      maybeFillObjName haveObjName_result dot_result zeroObjName NewObjName name =
        NewObjName (filter spec_kept name))"
proof -
  have valid: "ValidRune r \<Longrightarrow> 0 \<le> r \<and> WriteRune r = r"
    by (auto simp: ValidRune_def WriteRune_def)
  have deleted: "sanitizeName name (- 1) = filter spec_kept name"
    by (rule sanitizeName_negative) simp
  show ?thesis
    using valid
    by (auto simp: sanitizeName_negative sanitizeName_written maybeFillObjName_def deleted
        strings_ReplaceAll_empty_def Let_def)
qed

text \<open>
  The name \<^verbatim>\<open>my-map.v1\<close>: sanitised with deletion and with an underscore, and submitted
  (with the identity for \<^verbatim>\<open>sys.NewObjName\<close> and the empty list for the zero name) under
  the three outcomes of the two probes.
\<close>

theorem sanitizeName_maybeFillObjName_witness:
  "(- 1 :: rune) < 0 \<and>
   sanitizeName (map rune_lit ''my-map.v1'') (- 1) = map rune_lit ''mymap.v1'' \<and>
   ValidRune (rune_lit CHR ''_'') \<and>
   sanitizeName (map rune_lit ''my-map.v1'') (rune_lit CHR ''_'') = map rune_lit ''my_map.v1'' \<and>
   errors_Is (Some (Sentinel ErrNotSupported)) (Sentinel ErrNotSupported) \<and>
   maybeFillObjName (Some (Sentinel ErrNotSupported)) None [] id (map rune_lit ''my-map.v1'') = [] \<and>
   \<not> errors_Is None (Sentinel ErrNotSupported) \<and>
   maybeFillObjName None (Some (Sentinel ErrNotSupported)) [] id (map rune_lit ''my-map.v1'')
     = map rune_lit ''mymapv1'' \<and>
   maybeFillObjName None None [] id (map rune_lit ''my-map.v1'') = map rune_lit ''mymap.v1''"
proof -
  have h1: "ValidRune (rune_lit CHR ''_'')"
    by (simp add: ValidRune_def rune_lit_def)
  have h2: "errors_Is (Some (Sentinel ErrNotSupported)) (Sentinel ErrNotSupported)"
    by (simp add: errors_Is_def errors_is_cases)
  have h3: "\<not> errors_Is None (Sentinel ErrNotSupported)"
    by (simp add: errors_Is_def)
  have k: "filter spec_kept (map rune_lit ''my-map.v1'') = map rune_lit ''mymap.v1''"
    by (simp add: spec_kept_iff rune_lit_def)
  have k': "map (\<lambda>c. if spec_kept c then c else rune_lit CHR ''_'') (map rune_lit ''my-map.v1'')
      = map rune_lit ''my_map.v1''"
    by (simp add: spec_kept_iff rune_lit_def)
  have d: "filter (\<lambda>c. c \<noteq> rune_lit CHR ''.'') (map rune_lit ''mymap.v1'') = map rune_lit ''mymapv1''"
    by (simp add: rune_lit_def)
  show ?thesis
    using h1 h2 h3
      sanitizeName_maybeFillObjName [of "- 1" "map rune_lit ''my-map.v1''"
        "Some (Sentinel ErrNotSupported)" None "[]" id]
      sanitizeName_maybeFillObjName [of "rune_lit CHR ''_''" "map rune_lit ''my-map.v1''"
        None "Some (Sentinel ErrNotSupported)" "[]" id]
      sanitizeName_maybeFillObjName [of "- 1" "map rune_lit ''my-map.v1''" None None "[]" id]
    by (simp only: k k' d id_apply) simp
qed

text \<open>
  Claim C10. \<^verbatim>\<open>sanitizeName\<close> is idempotent: sanitising its own output with the same
  replacement changes nothing.
\<close>

theorem sanitizeName_idempotent:
  "sanitizeName (sanitizeName s r) r = sanitizeName s r"
proof (cases "r < 0")
  case True
  then show ?thesis
    by (simp add: sanitizeName_negative)
next
  case False
  then have r: "0 \<le> r"
    by simp
  show ?thesis
    by (simp add: sanitizeName_written [OF r] WriteRune_kept o_def)
qed

section \<open>The probes and the descriptor table\<close>

lemma lowest_free_fresh: "lowest_free fds \<notin> set fds"
proof (cases "find (\<lambda>n. n \<notin> set fds) [0..<Suc (length fds)]")
  case None
  then have "set [0..<Suc (length fds)] \<subseteq> set fds"
    by (auto simp: find_None_iff)
  then have "card (set [0..<Suc (length fds)]) \<le> card (set fds)"
    by (intro card_mono) simp_all
  moreover have "card (set fds) \<le> length fds"
    by (rule card_length)
  ultimately show ?thesis
    by simp
next
  case (Some n)
  then have "n \<notin> set fds"
    by (auto simp: find_Some_iff)
  with Some show ?thesis
    by (simp add: lowest_free_def)
qed

lemma close_new_fd: "new_fd k = (fd, k') \<Longrightarrow> FD_Close fd k' = k"
  using lowest_free_fresh [of "open_fds k"]
  by (auto simp: new_fd_def FD_Close_def Let_def)

lemma MapCreate_rejected: "sys_MapCreate attr (Some e) k = (Inl e, k)"
  by (simp add: sys_MapCreate_def kernel_MapCreate_def)

lemma ProgLoad_rejected: "sys_ProgLoad attr (Some e) k = (Inl e, k)"
  by (simp add: sys_ProgLoad_def kernel_ProgLoad_def)

text \<open>A request either fails and opens nothing, or returns a descriptor whose closing restores the table.\<close>

lemma MapCreate_outcome:
  "(\<exists>e. sys_MapCreate attr reply k = (Inl e, k)) \<or>
   (\<exists>fd k'. sys_MapCreate attr reply k = (Inr fd, k') \<and> FD_Close fd k' = k)"
proof (cases "kernel_MapCreate attr reply k")
  case None
  then show ?thesis
    by (cases "new_fd k") (simp add: sys_MapCreate_def close_new_fd)
next
  case (Some e)
  then show ?thesis
    by (simp add: sys_MapCreate_def)
qed

lemma ProgLoad_outcome:
  "(\<exists>e. sys_ProgLoad attr reply k = (Inl e, k)) \<or>
   (\<exists>fd k'. sys_ProgLoad attr reply k = (Inr fd, k') \<and> FD_Close fd k' = k)"
proof (cases "kernel_ProgLoad attr reply k")
  case None
  then show ?thesis
    by (cases "new_fd k") (simp add: sys_ProgLoad_def close_new_fd)
next
  case (Some e)
  then show ?thesis
    by (simp add: sys_ProgLoad_def)
qed

lemma MapCreate_accepted:
  "MapType attr \<noteq> ArrayOfMaps \<Longrightarrow>
   \<exists>fd k'. sys_MapCreate attr None k = (Inr fd, k') \<and> FD_Close fd k' = k"
  by (cases "new_fd k") (simp add: sys_MapCreate_def kernel_MapCreate_def close_new_fd)

lemma minus_one_invalid: "\<not> valid_fd k (NOT 0)"
  by (simp add: valid_fd_def)

text \<open>The two requests that carry the invalid descriptor fail, whatever else the kernel finds.\<close>

lemma MapCreate_invalid_inner:
  "MapType attr = ArrayOfMaps \<Longrightarrow> \<not> valid_fd k (InnerMapFd attr) \<Longrightarrow>
   \<exists>e. sys_MapCreate attr reply k = (Inl e, k) \<and>
       kernel_MapCreate attr reply k = Some e \<and> (reply = None \<longrightarrow> e = Errno EBADF)"
  by (cases reply) (simp_all add: sys_MapCreate_def kernel_MapCreate_def)

lemma ProgLoad_invalid_btf:
  "FuncInfoCnt attr \<noteq> 0 \<Longrightarrow> \<not> valid_fd k (ProgBtfFd attr) \<Longrightarrow>
   \<exists>e. sys_ProgLoad attr reply k = (Inl e, k) \<and>
       kernel_ProgLoad attr reply k = Some e \<and> (reply = None \<longrightarrow> e = Errno EBADF)"
  by (cases reply) (simp_all add: sys_ProgLoad_def kernel_ProgLoad_def)

lemma MapCreate_then_Close:
  "snd (case sys_MapCreate attr reply k of
          (Inl err, k') \<Rightarrow> (a, k')
        | (Inr fd, k') \<Rightarrow> (b fd, FD_Close fd k')) = k"
  using MapCreate_outcome [of attr reply k] by auto

lemma progLoad_then_Close:
  "snd (case progLoad marshal typ license reply k of
          (Inl err, k') \<Rightarrow> (a, k')
        | (Inr fd, k') \<Rightarrow> (b fd, FD_Close fd k')) = k"
proof (cases marshal)
  case (Some e)
  then show ?thesis
    by (simp add: progLoad_def)
next
  case None
  then show ?thesis
    using ProgLoad_outcome
      [of "ProgLoadAttr_zero\<lparr>ProgType := typ, ProgLoadAttr.License := license\<rparr>" reply k]
    by (auto simp: progLoad_def)
qed

lemma snd_haveMapMutabilityModifiers: "snd (haveMapMutabilityModifiers reply k) = k"
  unfolding haveMapMutabilityModifiers_def by (simp add: MapCreate_then_Close)

lemma snd_haveMmapableMaps: "snd (haveMmapableMaps reply k) = k"
  unfolding haveMmapableMaps_def by (simp add: MapCreate_then_Close)

lemma snd_haveInnerMaps: "snd (haveInnerMaps reply k) = k"
  unfolding haveInnerMaps_def by (simp add: MapCreate_then_Close)

lemma snd_haveNoPreallocMaps: "snd (haveNoPreallocMaps reply k) = k"
  unfolding haveNoPreallocMaps_def by (simp add: MapCreate_then_Close)

lemma snd_haveObjName: "snd (haveObjName isWindows reply k) = k"
  unfolding haveObjName_def by (simp add: Let_def MapCreate_then_Close)

lemma snd_objNameAllowsDot: "snd (objNameAllowsDot isWindows res reply k) = k"
  unfolding objNameAllowsDot_def
  by (cases res) (simp_all add: Let_def MapCreate_then_Close)

lemma snd_haveBatchAPI: "snd (haveBatchAPI reply batch_reply k) = k"
  using MapCreate_outcome
    [of "MapCreateAttr_zero\<lparr>MapType := Hash, KeySize := 4, ValueSize := 4, MaxEntries := 2\<rparr>"
      reply k]
  by (auto simp: haveBatchAPI_def Let_def)

lemma snd_haveProbeReadKernel: "snd (haveProbeReadKernel marshal reply k) = k"
  unfolding haveProbeReadKernel_def by (simp add: progLoad_then_Close)

lemma snd_haveBPFToBPFCalls: "snd (haveBPFToBPFCalls marshal reply k) = k"
  unfolding haveBPFToBPFCalls_def by (simp add: progLoad_then_Close)

lemma nested_request_fails:
  "\<exists>e. sys_MapCreate
       (MapCreateAttr_zero\<lparr>MapType := ArrayOfMaps, KeySize := 4, ValueSize := 4,
          MaxEntries := 1, InnerMapFd := NOT 0\<rparr>) reply k = (Inl e, k) \<and>
       (reply = None \<longrightarrow> e = Errno EBADF)"
  using MapCreate_invalid_inner
    [of "MapCreateAttr_zero\<lparr>MapType := ArrayOfMaps, KeySize := 4, ValueSize := 4,
          MaxEntries := 1, InnerMapFd := NOT 0\<rparr>" k reply]
    minus_one_invalid [of k]
  by auto

lemma ext_infos_request_fails:
  "\<exists>e. sys_ProgLoad
       (ProgLoadAttr_zero\<lparr>ProgType := SocketFilter, ProgLoadAttr.License := ''MIT'',
          FuncInfoCnt := 1, ProgBtfFd := NOT 0\<rparr>) reply k = (Inl e, k) \<and>
       (reply = None \<longrightarrow> e = Errno EBADF)"
  using ProgLoad_invalid_btf
    [of "ProgLoadAttr_zero\<lparr>ProgType := SocketFilter, ProgLoadAttr.License := ''MIT'',
          FuncInfoCnt := 1, ProgBtfFd := NOT 0\<rparr>" k reply]
    minus_one_invalid [of k]
  by auto

lemma snd_haveNestedMaps: "snd (haveNestedMaps isWindows reply k) = k"
  using nested_request_fails [of reply k]
  by (auto simp: haveNestedMaps_def Let_def)

lemma snd_haveProgramExtInfos: "snd (haveProgramExtInfos marshal reply k) = k"
  using ext_infos_request_fails [of reply k]
  by (cases marshal) (auto simp: haveProgramExtInfos_def Let_def)

text \<open>On a kernel that finds nothing else wrong, the invalid descriptor is what the two probes are answered for.\<close>

lemma haveNestedMaps_supported: "haveNestedMaps False None k = (None, k)"
  using nested_request_fails [of None k]
  by (auto simp: haveNestedMaps_def Let_def err_of_def errors_Is_def errors_is_cases)

lemma haveProgramExtInfos_supported: "haveProgramExtInfos None None k = (None, k)"
  using ext_infos_request_fails [of None k]
  by (auto simp: haveProgramExtInfos_def Let_def err_of_def errors_Is_def errors_is_cases)

lemma Event_Close_new:
  "tracefs_NewEvent None t = (Inr evt, t') \<Longrightarrow> snd (Event_Close evt closed t') = t"
  using lowest_free_fresh [of "events t"]
  by (auto simp: tracefs_NewEvent_def Event_Close_def Let_def)

lemma snd_haveSyscallWrapper_traced:
  "snd (haveSyscallWrapper_traced prefix goarch rgroup event closed t) = t"
proof (cases event)
  case None
  obtain evt t' where new: "tracefs_NewEvent None t = (Inr evt, t')"
    by (simp add: tracefs_NewEvent_def Let_def)
  with None show ?thesis
    by (cases rgroup) (simp_all add: haveSyscallWrapper_traced_def Event_Close_new)
next
  case (Some e)
  then show ?thesis
    by (cases rgroup) (simp_all add: haveSyscallWrapper_traced_def tracefs_NewEvent_def)
qed

text \<open>The error of the probe with the events made explicit is the error of \<^verbatim>\<open>haveSyscallWrapper\<close> above.\<close>

lemma fst_haveSyscallWrapper_traced:
  "fst (haveSyscallWrapper_traced prefix goarch rgroup event closed t)
     = haveSyscallWrapper prefix goarch rgroup event closed"
proof (cases event)
  case None
  obtain evt t' where "tracefs_NewEvent None t = (Inr evt, t')"
    by (simp add: tracefs_NewEvent_def Let_def)
  with None show ?thesis
    by (cases rgroup)
      (simp_all add: haveSyscallWrapper_traced_def haveSyscallWrapper_def Event_Close_def
        errors_Is_def)
next
  case (Some e)
  then show ?thesis
    by (cases rgroup)
      (simp_all add: haveSyscallWrapper_traced_def haveSyscallWrapper_def tracefs_NewEvent_def)
qed

text \<open>
  Claim C8. Every probe releases what its trial creates before it returns, on every exit
  path: after any of the twelve probes, whatever the kernel answers, the table of open
  descriptors is the table before the call, and so are the events of tracefs after
  \<^verbatim>\<open>haveSyscallWrapper\<close>. Nine probes close the descriptor they are given;
  \<^verbatim>\<open>haveNestedMaps\<close> and \<^verbatim>\<open>haveProgramExtInfos\<close> send a request with an invalid descriptor,
  which no kernel accepts, so their trial creates nothing.
\<close>

theorem probes_release_kernel_objects:
  "snd (haveNestedMaps isWindows reply k) = k \<and>
   snd (haveMapMutabilityModifiers reply k) = k \<and>
   snd (haveMmapableMaps reply k) = k \<and>
   snd (haveInnerMaps reply k) = k \<and>
   snd (haveNoPreallocMaps reply k) = k \<and>
   snd (haveObjName isWindows reply k) = k \<and>
   snd (objNameAllowsDot isWindows haveObjName_result reply k) = k \<and>
   snd (haveBatchAPI reply batch_reply k) = k \<and>
   snd (haveProbeReadKernel marshal reply k) = k \<and>
   snd (haveBPFToBPFCalls marshal reply k) = k \<and>
   snd (haveSyscallWrapper_traced prefix goarch rgroup event closed t) = t \<and>
   snd (haveProgramExtInfos marshal reply k) = k"
  by (simp add: snd_haveNestedMaps snd_haveMapMutabilityModifiers snd_haveMmapableMaps
      snd_haveInnerMaps snd_haveNoPreallocMaps snd_haveObjName snd_objNameAllowsDot
      snd_haveBatchAPI snd_haveProbeReadKernel snd_haveBPFToBPFCalls
      snd_haveSyscallWrapper_traced snd_haveProgramExtInfos)

text \<open>
  A process with the descriptors 0, 1 and 2 open and one event in tracefs, on a kernel that
  finds nothing wrong but the invalid descriptor: every probe reports support and leaves
  the same three descriptors open and the same event in place.
\<close>

theorem probes_release_kernel_objects_witness:
  "haveNestedMaps False None \<lparr>open_fds = [0, 1, 2]\<rparr> = (None, \<lparr>open_fds = [0, 1, 2]\<rparr>) \<and>
   haveMmapableMaps None \<lparr>open_fds = [0, 1, 2]\<rparr> = (None, \<lparr>open_fds = [0, 1, 2]\<rparr>) \<and>
   haveBatchAPI None None \<lparr>open_fds = [0, 1, 2]\<rparr> = (None, \<lparr>open_fds = [0, 1, 2]\<rparr>) \<and>
   haveBPFToBPFCalls None None \<lparr>open_fds = [0, 1, 2]\<rparr> = (None, \<lparr>open_fds = [0, 1, 2]\<rparr>) \<and>
   haveProgramExtInfos None None \<lparr>open_fds = [0, 1, 2]\<rparr> = (None, \<lparr>open_fds = [0, 1, 2]\<rparr>) \<and>
   haveSyscallWrapper_traced ''__x64_'' ''amd64'' (Inr ''ebpf_probe_1'') None None \<lparr>events = [0]\<rparr>
     = (None, \<lparr>events = [0]\<rparr>)"
proof -
  let ?k = "\<lparr>open_fds = [0, 1, 2]\<rparr>" and ?t = "\<lparr>events = [0]\<rparr>"
  note released = probes_release_kernel_objects
    [of False None ?k _ None None "''__x64_''" "''amd64''" "Inr ''ebpf_probe_1''" None None ?t]
  have supported: "fst (haveNestedMaps False None ?k) = None"
    "fst (haveMmapableMaps None ?k) = None"
    "fst (haveBatchAPI None None ?k) = None"
    "fst (haveBPFToBPFCalls None None ?k) = None"
    "fst (haveProgramExtInfos None None ?k) = None"
    "fst (haveSyscallWrapper_traced ''__x64_'' ''amd64'' (Inr ''ebpf_probe_1'') None None ?t) = None"
    by (simp_all add: haveNestedMaps_supported haveProgramExtInfos_supported
        haveMmapableMaps_def haveBatchAPI_def haveBPFToBPFCalls_def progLoad_def
        sys_MapCreate_def kernel_MapCreate_def sys_ProgLoad_def kernel_ProgLoad_def
        sys_MapUpdateBatch_def new_fd_def MapCreateAttr_zero_def ProgLoadAttr_zero_def Let_def
        fst_haveSyscallWrapper_traced haveSyscallWrapper_def errors_Is_def)
  from released supported show ?thesis
    by (simp add: prod_eq_iff)
qed

section \<open>What a probe makes of a failed trial\<close>

lemma fst_MapCreate_rejected:
  "fst (case sys_MapCreate attr (Some e) k of
          (Inl err, k') \<Rightarrow> (a, k')
        | (Inr fd, k') \<Rightarrow> (b fd, c fd k')) = a"
  by (simp add: MapCreate_rejected)

lemma fst_progLoad_rejected:
  "marshal \<noteq> None \<or> reply \<noteq> None \<Longrightarrow>
   fst (case progLoad marshal typ license reply k of
          (Inl err, k') \<Rightarrow> (a, k')
        | (Inr fd, k') \<Rightarrow> (b fd, c fd k')) = a"
  by (cases marshal; cases reply) (simp_all add: progLoad_def ProgLoad_rejected)

lemma haveBatchAPI_batch_rejected:
  "fst (haveBatchAPI None (Some e) k) = Some (Sentinel ErrNotSupported)"
proof -
  have "MapType (MapCreateAttr_zero\<lparr>MapType := Hash, KeySize := 4, ValueSize := 4,
      MaxEntries := 2\<rparr>) \<noteq> ArrayOfMaps"
    by simp
  then obtain fd k' where "sys_MapCreate
      (MapCreateAttr_zero\<lparr>MapType := Hash, KeySize := 4, ValueSize := 4, MaxEntries := 2\<rparr>)
      None k = (Inr fd, k')"
    using MapCreate_accepted by blast
  then show ?thesis
    by (simp add: haveBatchAPI_def Let_def sys_MapUpdateBatch_def)
qed

lemma haveNestedMaps_failed:
  "fst (haveNestedMaps False (Some e) k) =
     (if errors_Is (Some e) (Errno EINVAL) then Some (Sentinel ErrNotSupported)
      else if errors_Is (Some e) (Errno EBADF) then None
      else Some e)"
  by (simp add: haveNestedMaps_def MapCreate_rejected err_of_def)

lemma haveProgramExtInfos_failed:
  "fst (haveProgramExtInfos None (Some e) k) =
     (if errors_Is (Some e) (Errno EBADF) then None
      else if errors_Is (Some e) (Errno E2BIG) then Some (Sentinel ErrNotSupported)
      else Some e)"
  by (simp add: haveProgramExtInfos_def ProgLoad_rejected err_of_def)

text \<open>
  Claim C3, as the code has it. Three probes tell failures apart: \<^verbatim>\<open>haveNestedMaps\<close>
  (unsupported on \<^verbatim>\<open>EINVAL\<close>, supported on \<^verbatim>\<open>EBADF\<close>), \<^verbatim>\<open>haveProgramExtInfos\<close> (supported
  on \<^verbatim>\<open>EBADF\<close>, unsupported on \<^verbatim>\<open>E2BIG\<close>, an encoding error returned as it is) and
  \<^verbatim>\<open>haveSyscallWrapper\<close> (unsupported when the event does not exist); each returns any
  other failure of its trial unchanged. The other nine probes report unsupported for every
  failure of their trial, whatever the error; \<^verbatim>\<open>objNameAllowsDot\<close> first returns unchanged
  the error that \<^verbatim>\<open>haveObjName\<close> gave it.
\<close>

theorem probe_failure_outcomes:
  "(errors_Is (Some e) (Errno EINVAL) \<longrightarrow>
      fst (haveNestedMaps False (Some e) k) = Some (Sentinel ErrNotSupported)) \<and>
   (\<not> errors_Is (Some e) (Errno EINVAL) \<and> errors_Is (Some e) (Errno EBADF) \<longrightarrow>
      fst (haveNestedMaps False (Some e) k) = None) \<and>
   (\<not> errors_Is (Some e) (Errno EINVAL) \<and> \<not> errors_Is (Some e) (Errno EBADF) \<longrightarrow>
      fst (haveNestedMaps False (Some e) k) = Some e) \<and>
   (errors_Is (Some e) (Errno EBADF) \<longrightarrow> fst (haveProgramExtInfos None (Some e) k) = None) \<and>
   (\<not> errors_Is (Some e) (Errno EBADF) \<and> errors_Is (Some e) (Errno E2BIG) \<longrightarrow>
      fst (haveProgramExtInfos None (Some e) k) = Some (Sentinel ErrNotSupported)) \<and>
   (\<not> errors_Is (Some e) (Errno EBADF) \<and> \<not> errors_Is (Some e) (Errno E2BIG) \<longrightarrow>
      fst (haveProgramExtInfos None (Some e) k) = Some e) \<and>
   fst (haveProgramExtInfos (Some e) reply k) = Some e \<and>
   (prefix \<noteq> [] \<and> errors_Is (Some e) (Sentinel ErrNotExist) \<longrightarrow>
      haveSyscallWrapper prefix goarch (Inr g) (Some e) closed = Some (Sentinel ErrNotSupported)) \<and>
   (prefix \<noteq> [] \<and> \<not> errors_Is (Some e) (Sentinel ErrNotExist) \<longrightarrow>
      haveSyscallWrapper prefix goarch (Inr g) (Some e) closed = Some e) \<and>
   (prefix \<noteq> [] \<longrightarrow>
      haveSyscallWrapper prefix goarch (Inl e) event closed = Some e \<and>
      haveSyscallWrapper prefix goarch (Inr g) None closed = closed) \<and>
   fst (haveMapMutabilityModifiers (Some e) k) = Some (Sentinel ErrNotSupported) \<and>
   fst (haveMmapableMaps (Some e) k) = Some (Sentinel ErrNotSupported) \<and>
   fst (haveInnerMaps (Some e) k) = Some (Sentinel ErrNotSupported) \<and>
   fst (haveNoPreallocMaps (Some e) k) = Some (Sentinel ErrNotSupported) \<and>
   fst (haveObjName False (Some e) k) = Some (Sentinel ErrNotSupported) \<and>
   fst (objNameAllowsDot False None (Some e) k) = Some (Sentinel ErrNotSupported) \<and>
   fst (objNameAllowsDot False (Some e) reply k) = Some e \<and>
   fst (haveBatchAPI (Some e) batch_reply k) = Some (Sentinel ErrNotSupported) \<and>
   fst (haveBatchAPI None (Some e) k) = Some (Sentinel ErrNotSupported) \<and>
   fst (haveProbeReadKernel None (Some e) k) = Some (Sentinel ErrNotSupported) \<and>
   fst (haveProbeReadKernel (Some e) reply k) = Some (Sentinel ErrNotSupported) \<and>
   fst (haveBPFToBPFCalls None (Some e) k) = Some (Sentinel ErrNotSupported) \<and>
   fst (haveBPFToBPFCalls (Some e) reply k) = Some (Sentinel ErrNotSupported)"
proof -
  have nested: "fst (haveNestedMaps False (Some e) k) =
      (if errors_Is (Some e) (Errno EINVAL) then Some (Sentinel ErrNotSupported)
       else if errors_Is (Some e) (Errno EBADF) then None else Some e)"
    by (rule haveNestedMaps_failed)
  have ext: "fst (haveProgramExtInfos None (Some e) k) =
      (if errors_Is (Some e) (Errno EBADF) then None
       else if errors_Is (Some e) (Errno E2BIG) then Some (Sentinel ErrNotSupported) else Some e)"
    by (rule haveProgramExtInfos_failed)
  have ext_marshal: "fst (haveProgramExtInfos (Some e) reply k) = Some e"
    by (simp add: haveProgramExtInfos_def)
  have wrapper: "prefix \<noteq> [] \<Longrightarrow>
      haveSyscallWrapper prefix goarch (Inr g) (Some e) closed =
        (if errors_Is (Some e) (Sentinel ErrNotExist) then Some (Sentinel ErrNotSupported) else Some e) \<and>
      haveSyscallWrapper prefix goarch (Inl e) event closed = Some e \<and>
      haveSyscallWrapper prefix goarch (Inr g) None closed = closed"
    by (simp add: haveSyscallWrapper_def errors_Is_def)
  have maps: "fst (haveMapMutabilityModifiers (Some e) k) = Some (Sentinel ErrNotSupported) \<and>
      fst (haveMmapableMaps (Some e) k) = Some (Sentinel ErrNotSupported) \<and>
      fst (haveInnerMaps (Some e) k) = Some (Sentinel ErrNotSupported) \<and>
      fst (haveNoPreallocMaps (Some e) k) = Some (Sentinel ErrNotSupported)"
    by (simp add: haveMapMutabilityModifiers_def haveMmapableMaps_def haveInnerMaps_def
        haveNoPreallocMaps_def fst_MapCreate_rejected)
  have names: "fst (haveObjName False (Some e) k) = Some (Sentinel ErrNotSupported) \<and>
      fst (objNameAllowsDot False None (Some e) k) = Some (Sentinel ErrNotSupported) \<and>
      fst (objNameAllowsDot False (Some e) reply k) = Some e"
    by (simp add: haveObjName_def objNameAllowsDot_def Let_def fst_MapCreate_rejected)
  have batch: "fst (haveBatchAPI (Some e) batch_reply k) = Some (Sentinel ErrNotSupported) \<and>
      fst (haveBatchAPI None (Some e) k) = Some (Sentinel ErrNotSupported)"
    by (simp add: haveBatchAPI_batch_rejected) (simp add: haveBatchAPI_def Let_def MapCreate_rejected)
  have progs: "fst (haveProbeReadKernel None (Some e) k) = Some (Sentinel ErrNotSupported) \<and>
      fst (haveProbeReadKernel (Some e) reply k) = Some (Sentinel ErrNotSupported) \<and>
      fst (haveBPFToBPFCalls None (Some e) k) = Some (Sentinel ErrNotSupported) \<and>
      fst (haveBPFToBPFCalls (Some e) reply k) = Some (Sentinel ErrNotSupported)"
    by (simp add: haveProbeReadKernel_def haveBPFToBPFCalls_def fst_progLoad_rejected)
  show ?thesis
    using nested ext ext_marshal wrapper maps names batch progs
    by presburger
qed

text \<open>
  The probes at a kernel that answers \<^verbatim>\<open>EPERM\<close>: \<^verbatim>\<open>haveNestedMaps\<close> and
  \<^verbatim>\<open>haveProgramExtInfos\<close> return \<^verbatim>\<open>EPERM\<close>; at \<^verbatim>\<open>EINVAL\<close> the first, at \<^verbatim>\<open>E2BIG\<close> the
  second reports unsupported.
\<close>

theorem probe_failure_outcomes_witness:
  "\<not> errors_Is (Some (Errno EPERM)) (Errno EINVAL) \<and>
   \<not> errors_Is (Some (Errno EPERM)) (Errno EBADF) \<and>
   \<not> errors_Is (Some (Errno EPERM)) (Errno E2BIG) \<and>
   fst (haveNestedMaps False (Some (Errno EPERM)) \<lparr>open_fds = []\<rparr>) = Some (Errno EPERM) \<and>
   fst (haveProgramExtInfos None (Some (Errno EPERM)) \<lparr>open_fds = []\<rparr>) = Some (Errno EPERM) \<and>
   errors_Is (Some (Errno EINVAL)) (Errno EINVAL) \<and>
   fst (haveNestedMaps False (Some (Errno EINVAL)) \<lparr>open_fds = []\<rparr>)
     = Some (Sentinel ErrNotSupported) \<and>
   \<not> errors_Is (Some (Errno E2BIG)) (Errno EBADF) \<and>
   errors_Is (Some (Errno E2BIG)) (Errno E2BIG) \<and>
   fst (haveProgramExtInfos None (Some (Errno E2BIG)) \<lparr>open_fds = []\<rparr>)
     = Some (Sentinel ErrNotSupported) \<and>
   ''__x64_'' \<noteq> [] \<and>
   errors_Is (Some (Errno ENOENT)) (Sentinel ErrNotExist) \<and>
   haveSyscallWrapper ''__x64_'' ''amd64'' (Inr ''ebpf_probe_1'') (Some (Errno ENOENT)) None
     = Some (Sentinel ErrNotSupported) \<and>
   \<not> errors_Is (Some (Errno EPERM)) (Sentinel ErrNotExist) \<and>
   haveSyscallWrapper ''__x64_'' ''amd64'' (Inr ''ebpf_probe_1'') (Some (Errno EPERM)) None
     = Some (Errno EPERM)"
proof -
  have h1: "\<not> errors_Is (Some (Errno EPERM)) (Errno EINVAL) \<and>
      \<not> errors_Is (Some (Errno EPERM)) (Errno EBADF) \<and>
      \<not> errors_Is (Some (Errno EPERM)) (Errno E2BIG) \<and>
      \<not> errors_Is (Some (Errno EPERM)) (Sentinel ErrNotExist)"
    by (simp add: errors_Is_def errors_is_cases)
  have h2: "errors_Is (Some (Errno EINVAL)) (Errno EINVAL)"
    by (simp add: errors_Is_def errors_is_cases)
  have h3: "\<not> errors_Is (Some (Errno E2BIG)) (Errno EBADF) \<and>
      errors_Is (Some (Errno E2BIG)) (Errno E2BIG)"
    by (simp add: errors_Is_def errors_is_cases)
  have h4: "''__x64_'' \<noteq> [] \<and> errors_Is (Some (Errno ENOENT)) (Sentinel ErrNotExist)"
    by (simp add: errors_Is_def errors_is_cases)
  have c1: "fst (haveNestedMaps False (Some (Errno EPERM)) \<lparr>open_fds = []\<rparr>) = Some (Errno EPERM) \<and>
      fst (haveProgramExtInfos None (Some (Errno EPERM)) \<lparr>open_fds = []\<rparr>) = Some (Errno EPERM) \<and>
      haveSyscallWrapper ''__x64_'' ''amd64'' (Inr ''ebpf_probe_1'') (Some (Errno EPERM)) None
        = Some (Errno EPERM)"
    using h1 h4 probe_failure_outcomes [of "Errno EPERM" "\<lparr>open_fds = []\<rparr>" None
        "''__x64_''" "''amd64''" "''ebpf_probe_1''" None None None]
    by blast
  have c2: "fst (haveNestedMaps False (Some (Errno EINVAL)) \<lparr>open_fds = []\<rparr>)
      = Some (Sentinel ErrNotSupported)"
    using h2 probe_failure_outcomes [of "Errno EINVAL" "\<lparr>open_fds = []\<rparr>"]
    by blast
  have c3: "fst (haveProgramExtInfos None (Some (Errno E2BIG)) \<lparr>open_fds = []\<rparr>)
      = Some (Sentinel ErrNotSupported)"
    using h3 probe_failure_outcomes [of "Errno E2BIG" "\<lparr>open_fds = []\<rparr>"]
    by blast
  have c4: "haveSyscallWrapper ''__x64_'' ''amd64'' (Inr ''ebpf_probe_1'') (Some (Errno ENOENT)) None
      = Some (Sentinel ErrNotSupported)"
    using h4 probe_failure_outcomes [of "Errno ENOENT" "\<lparr>open_fds = []\<rparr>" None
        "''__x64_''" "''amd64''" "''ebpf_probe_1''" None None None]
    by blast
  show ?thesis
    using h1 h2 h3 h4 c1 c2 c3 c4 by blast
qed

text \<open>
  The claim as stated fails at \<^verbatim>\<open>haveObjName\<close> and \<^verbatim>\<open>haveMmapableMaps\<close>: on a kernel that
  answers \<^verbatim>\<open>EPERM\<close>, which is not the rejection of a malformed request (\<^verbatim>\<open>EINVAL\<close>), both
  report unsupported and the caller never sees \<^verbatim>\<open>EPERM\<close>.
\<close>

theorem any_failure_reported_unsupported:
  "\<not> errors_Is (Some (Errno EPERM)) (Errno EINVAL) \<and>
   fst (haveObjName False (Some (Errno EPERM)) \<lparr>open_fds = []\<rparr>) = Some (Sentinel ErrNotSupported) \<and>
   fst (haveMmapableMaps (Some (Errno EPERM)) \<lparr>open_fds = []\<rparr>) = Some (Sentinel ErrNotSupported) \<and>
   Some (Sentinel ErrNotSupported) \<noteq> Some (Errno EPERM)"
  by (simp add: errors_Is_def errors_is_cases haveObjName_def haveMmapableMaps_def
      fst_MapCreate_rejected Let_def)

section \<open>Blocks of the symbol splitter\<close>

lemma plain_tags [simp]:
  "symbol (plain opc) = None" "reference (plain opc) = None" "rel_offset (plain opc) = 0"
  "operation (plain opc) = opc"
  by (simp_all add: plain_def)

lemma WithSymbol_tags [simp]:
  "symbol (WithSymbol i s) = Some s" "reference (WithSymbol i s) = reference i"
  "rel_offset (WithSymbol i s) = rel_offset i" "operation (WithSymbol i s) = operation i"
  by (simp_all add: WithSymbol_def)

lemma WithReference_tags [simp]:
  "symbol (WithReference i r) = symbol i" "reference (WithReference i r) = Some r"
  "rel_offset (WithReference i r) = rel_offset i" "operation (WithReference i r) = operation i"
  by (simp_all add: WithReference_def)

lemma symbols_Nil: "symbols [] = []"
  by (simp add: symbols_def)

lemma symbols_Cons:
  "symbols (i # rest) = (case symbol i of None \<Rightarrow> symbols rest | Some s \<Rightarrow> s # symbols rest)"
  by (cases "symbol i") (simp_all add: symbols_def)

lemma references_Nil: "references [] = []"
  by (simp add: references_def)

lemma references_Cons:
  "references (i # rest) =
     (case reference i of None \<Rightarrow> references rest | Some r \<Rightarrow> r # references rest)"
  by (cases "reference i") (simp_all add: references_def)

lemma symbols_append: "symbols (xs @ ys) = symbols xs @ symbols ys"
  by (induction xs) (simp_all add: symbols_Nil symbols_Cons split: option.splits)


lemma in_symbols_iff: "s \<in> set (symbols xs) \<longleftrightarrow> (\<exists>i\<in>set xs. symbol i = Some s)"
  by (induction xs) (auto simp: symbols_Nil symbols_Cons split: option.splits)

lemma in_references_iff: "r \<in> set (references xs) \<longleftrightarrow> (\<exists>i\<in>set xs. reference i = Some r)"
  by (induction xs) (auto simp: references_Nil references_Cons split: option.splits)

lemma split_blocks_keys: "map fst (split_blocks cur block rest) = cur # symbols rest"
  by (induction rest arbitrary: cur block)
    (simp_all add: symbols_Nil symbols_Cons split: option.splits)

lemma split_blocks_first:
  "(cur, block @ takeWhile (\<lambda>x. symbol x = None) rest) \<in> set (split_blocks cur block rest)"
proof (induction rest arbitrary: block)
  case Nil
  show ?case
    by simp
next
  case (Cons a rest)
  show ?case
    using Cons [of "block @ [a]"] by (cases "symbol a") simp_all
qed

lemma split_blocks_later:
  "symbol j = Some t \<Longrightarrow>
   (t, j # takeWhile (\<lambda>x. symbol x = None) post) \<in> set (split_blocks cur block (pre @ j # post))"
proof (induction pre arbitrary: cur block)
  case Nil
  then show ?case
    using split_blocks_first [of t "[j]" post] by simp
next
  case (Cons p pre)
  then show ?case
    by (auto split: option.splits)
qed

lemma splitSymbols_blocks:
  assumes lead: "symbol i = Some s" and dist: "distinct (symbols (i # rest))"
  shows "\<exists>m. splitSymbols (i # rest) = Inr m \<and> dom m = set (symbols (i # rest)) \<and>
           card (dom m) = length (symbols (i # rest)) \<and>
           (\<forall>pre j post t. i # rest = pre @ j # post \<and> symbol j = Some t \<longrightarrow>
              m t = Some (j # takeWhile (\<lambda>x. symbol x = None) post))"
proof -
  let ?bs = "split_blocks s [i] rest"
  have keys: "map fst ?bs = symbols (i # rest)"
    using lead by (simp add: split_blocks_keys symbols_Cons)
  with dist have dk: "distinct (map fst ?bs)"
    by simp
  have res: "splitSymbols (i # rest) = Inr (map_of ?bs)"
    using lead dist by (simp add: splitSymbols_def)
  have dom: "dom (map_of ?bs) = set (symbols (i # rest))"
    using keys by (metis dom_map_of_conv_image_fst set_map)
  have card: "card (dom (map_of ?bs)) = length (symbols (i # rest))"
    using dom dist by (simp add: distinct_card)
  have blocks: "map_of ?bs t = Some (j # takeWhile (\<lambda>x. symbol x = None) post)"
    if eq: "i # rest = pre @ j # post" and t: "symbol j = Some t" for pre j post t
  proof -
    have "(t, j # takeWhile (\<lambda>x. symbol x = None) post) \<in> set ?bs"
    proof (cases pre)
      case Nil
      with eq t lead show ?thesis
        using split_blocks_first [of s "[i]" rest] by simp
    next
      case (Cons p pre')
      with eq have "rest = pre' @ j # post"
        by simp
      with t show ?thesis
        by (simp add: split_blocks_later)
    qed
    with dk show ?thesis
      by simp
  qed
  from res dom card blocks show ?thesis
    by blast
qed

text \<open>
  Claim C7. \<^verbatim>\<open>splitSymbols\<close> fails on empty input, on input whose first instruction has
  no symbol tag, and on input in which a symbol name appears twice. On every other input
  it returns one entry per symbol tag, and the entry of a symbol is the block from the
  instruction that carries it up to the next symbol tag or the end of the input.
\<close>

theorem splitSymbols_contract:
  "splitSymbols [] = Inl MissingLeadingSymbol \<and>
   (symbol i = None \<longrightarrow> splitSymbols (i # rest) = Inl MissingLeadingSymbol) \<and>
   (\<not> distinct (symbols insns) \<longrightarrow> (\<exists>e. splitSymbols insns = Inl e)) \<and>
   (symbol i = Some s \<and> \<not> distinct (symbols (i # rest)) \<longrightarrow>
      splitSymbols (i # rest) = Inl DuplicateSymbol) \<and>
   (symbol i = Some s \<and> distinct (symbols (i # rest)) \<longrightarrow>
      (\<exists>m. splitSymbols (i # rest) = Inr m \<and> dom m = set (symbols (i # rest)) \<and>
           card (dom m) = length (symbols (i # rest)) \<and>
           (\<forall>pre j post t. i # rest = pre @ j # post \<and> symbol j = Some t \<longrightarrow>
              m t = Some (j # takeWhile (\<lambda>x. symbol x = None) post))))"
proof -
  have empty: "splitSymbols [] = Inl MissingLeadingSymbol"
    by (simp add: splitSymbols_def)
  have headless: "symbol i = None \<Longrightarrow> splitSymbols (i # rest) = Inl MissingLeadingSymbol"
    by (simp add: splitSymbols_def)
  have dup: "\<not> distinct (symbols insns) \<Longrightarrow> \<exists>e. splitSymbols insns = Inl e"
    by (cases insns) (auto simp: splitSymbols_def symbols_Nil split: option.splits)
  have dup': "symbol i = Some s \<Longrightarrow> \<not> distinct (symbols (i # rest)) \<Longrightarrow>
      splitSymbols (i # rest) = Inl DuplicateSymbol"
    by (simp add: splitSymbols_def)
  show ?thesis
    using empty headless dup dup' splitSymbols_blocks [of i s rest]
    by blast
qed

text \<open>
  The four blocks of the test \<^verbatim>\<open>TestSplitSymbols\<close>, of lengths 1, 2, 3 and 4 under the
  symbols \<^verbatim>\<open>sym1\<close> to \<^verbatim>\<open>sym4\<close>: four entries, of these lengths. The same test's two
  instructions that both carry \<^verbatim>\<open>sym\<close> are refused, and so is a lone instruction without
  a symbol.
\<close>

theorem splitSymbols_contract_witness:
  "(\<exists>m. splitSymbols
      [WithSymbol (plain 149) ''sym1'',
       WithSymbol (plain 183) ''sym2'', plain 149,
       WithSymbol (plain 183) ''sym3'', plain 183, plain 149,
       WithSymbol (plain 183) ''sym4'', plain 183, plain 183, plain 149] = Inr m \<and>
      card (dom m) = 4 \<and>
      map_option length (m ''sym1'') = Some 1 \<and> map_option length (m ''sym2'') = Some 2 \<and>
      map_option length (m ''sym3'') = Some 3 \<and> map_option length (m ''sym4'') = Some 4) \<and>
   splitSymbols [WithSymbol (plain 149) ''sym'', WithSymbol (plain 149) ''sym'']
     = Inl DuplicateSymbol \<and>
   splitSymbols [plain 149] = Inl MissingLeadingSymbol"
proof -
  let ?ret = "plain 149" and ?mov = "plain 183"
  let ?s1 = "WithSymbol (plain 149) ''sym1''" and ?s2 = "WithSymbol (plain 183) ''sym2''"
  let ?s3 = "WithSymbol (plain 183) ''sym3''" and ?s4 = "WithSymbol (plain 183) ''sym4''"
  let ?s = "WithSymbol (plain 149) ''sym''"
  let ?rest = "[?s2, ?ret, ?s3, ?mov, ?ret, ?s4, ?mov, ?mov, ?ret]"
  have syms: "symbols (?s1 # ?rest) = [''sym1'', ''sym2'', ''sym3'', ''sym4'']"
    by (simp add: symbols_Cons symbols_Nil)
  have lead: "symbol ?s1 = Some ''sym1'' \<and> distinct (symbols (?s1 # ?rest))"
    by (simp add: syms)
  have "\<exists>m. splitSymbols (?s1 # ?rest) = Inr m \<and> dom m = set (symbols (?s1 # ?rest)) \<and>
      card (dom m) = length (symbols (?s1 # ?rest)) \<and>
      (\<forall>pre j post t. ?s1 # ?rest = pre @ j # post \<and> symbol j = Some t \<longrightarrow>
         m t = Some (j # takeWhile (\<lambda>x. symbol x = None) post))"
    by (rule splitSymbols_contract [of ?s1 ?rest "[]" "''sym1''", THEN conjunct2, THEN conjunct2,
          THEN conjunct2, THEN conjunct2, THEN mp, OF lead])
  then obtain m where m: "splitSymbols (?s1 # ?rest) = Inr m"
    and card: "card (dom m) = length (symbols (?s1 # ?rest))"
    and blocks: "\<And>pre j post t. ?s1 # ?rest = pre @ j # post \<and> symbol j = Some t \<Longrightarrow>
        m t = Some (j # takeWhile (\<lambda>x. symbol x = None) post)"
    by blast
  have b1: "m ''sym1'' = Some [?s1]"
    using blocks [of "[]" ?s1 ?rest "''sym1''"] by simp
  have b2: "m ''sym2'' = Some [?s2, ?ret]"
    using blocks [of "[?s1]" ?s2 "[?ret, ?s3, ?mov, ?ret, ?s4, ?mov, ?mov, ?ret]" "''sym2''"]
    by simp
  have b3: "m ''sym3'' = Some [?s3, ?mov, ?ret]"
    using blocks [of "[?s1, ?s2, ?ret]" ?s3 "[?mov, ?ret, ?s4, ?mov, ?mov, ?ret]" "''sym3''"]
    by simp
  have b4: "m ''sym4'' = Some [?s4, ?mov, ?mov, ?ret]"
    using blocks [of "[?s1, ?s2, ?ret, ?s3, ?mov, ?ret]" ?s4 "[?mov, ?mov, ?ret]" "''sym4''"]
    by simp
  have four: "\<exists>m. splitSymbols (?s1 # ?rest) = Inr m \<and> card (dom m) = 4 \<and>
      map_option length (m ''sym1'') = Some 1 \<and> map_option length (m ''sym2'') = Some 2 \<and>
      map_option length (m ''sym3'') = Some 3 \<and> map_option length (m ''sym4'') = Some 4"
    using m card b1 b2 b3 b4 by (simp add: syms)
  have dup: "symbol ?s = Some ''sym'' \<and> \<not> distinct (symbols [?s, ?s])"
    by (simp add: symbols_Cons symbols_Nil)
  have twice: "splitSymbols [?s, ?s] = Inl DuplicateSymbol"
    by (rule splitSymbols_contract [of ?s "[?s]" "[]" "''sym''", THEN conjunct2, THEN conjunct2,
          THEN conjunct2, THEN conjunct1, THEN mp, OF dup])
  have nosym: "symbol ?ret = None"
    by simp
  have headless: "splitSymbols [?ret] = Inl MissingLeadingSymbol"
    by (rule splitSymbols_contract [of ?ret "[]" "[]" "''sym''", THEN conjunct2, THEN conjunct1,
          THEN mp, OF nosym])
  from four twice headless show ?thesis
    by (intro conjI)
qed

section \<open>The merged stream\<close>

lemma references_subprogram_block: "references (subprogram_block n insns) = references insns"
  by (cases insns) (simp_all add: subprogram_block_def references_Cons references_Nil)

lemma in_calls_iff:
  "(a, b) \<in> calls progs \<longleftrightarrow> b \<in> set (function_references progs a) \<and> map_of progs b \<noteq> None"
  by (simp add: calls_def)

lemma reachable_entry: "name \<in> reachable progs name"
  by (simp add: reachable_def)

lemma reachable_step:
  "a \<in> reachable progs name \<Longrightarrow> (a, b) \<in> calls progs \<Longrightarrow> b \<in> reachable progs name"
  by (auto simp: reachable_def intro: rtrancl_into_rtrancl)

lemma reachable_least:
  assumes "name \<in> S" and closed: "\<And>a b. a \<in> S \<Longrightarrow> (a, b) \<in> calls progs \<Longrightarrow> b \<in> S"
  shows "reachable progs name \<subseteq> S"
proof
  fix b
  assume "b \<in> reachable progs name"
  then have "(name, b) \<in> (calls progs)\<^sup>*"
    by (simp add: reachable_def)
  then show "b \<in> S"
    by (induction rule: rtrancl_induct) (auto intro: assms)
qed

lemma merge_pending_accumulates:
  "merge_pending progs refs visited pending (acc @ insns)
     = acc @ merge_pending progs refs visited pending insns"
proof (induction progs refs visited pending insns arbitrary: acc rule: merge_pending.induct)
  case (1 progs refs visited insns)
  show ?case
    by simp
next
  case (2 progs refs visited ref pending insns)
  show ?case
  proof (cases "ref \<in> set visited")
    case True
    with 2(1) show ?thesis
      by simp
  next
    case new: False
    show ?thesis
    proof (cases "map_of progs ref")
      case None
      with new 2(2) show ?thesis
        by simp
    next
      case (Some sub)
      with new 2(3) [of sub acc] show ?thesis
        by simp
    qed
  qed
qed

text \<open>
  The traversal from a state in which everything visited is reachable, every call out of
  a visited program is visited or pending, and every pending program is reachable: what it
  appends are the blocks of the reachable programs not yet visited, each once.
\<close>

lemma merge_pending_reachable:
  assumes "refs = function_references progs"
    and "name \<in> set visited"
    and "set visited \<subseteq> reachable progs name"
    and "\<And>a b. a \<in> set visited \<Longrightarrow> (a, b) \<in> calls progs \<Longrightarrow> b \<in> set visited \<union> set pending"
    and "\<And>b. b \<in> set pending \<Longrightarrow> map_of progs b \<noteq> None \<Longrightarrow> b \<in> reachable progs name"
  shows "\<exists>new. distinct new \<and> set new \<inter> set visited = {} \<and>
           set visited \<union> set new = reachable progs name \<and>
           merge_pending progs refs visited pending insns
             = insns @ concat (map (merged_block progs name) new)"
  using assms
proof (induction progs refs visited pending insns rule: merge_pending.induct)
  case (1 progs refs visited insns)
  have "reachable progs name \<subseteq> set visited"
    using 1(2) 1(4) by (intro reachable_least) auto
  with 1(3) have "set visited = reachable progs name"
    by auto
  then show ?case
    by (intro exI [of _ "[]"]) simp
next
  case (2 progs refs visited ref pending insns)
  note refs = \<open>refs = function_references progs\<close>
  note entry = \<open>name \<in> set visited\<close>
  note sound = \<open>set visited \<subseteq> reachable progs name\<close>
  note closed = 2(7)
  note pend = 2(8)
  show ?case
  proof (cases "ref \<in> set visited")
    case True
    have "\<exists>new. distinct new \<and> set new \<inter> set visited = {} \<and>
           set visited \<union> set new = reachable progs name \<and>
           merge_pending progs refs visited pending insns
             = insns @ concat (map (merged_block progs name) new)"
    proof (rule 2(1) [OF True refs entry sound])
      fix a b
      assume "a \<in> set visited" and "(a, b) \<in> calls progs"
      then have "b \<in> set visited \<union> set (ref # pending)"
        by (rule closed)
      with True show "b \<in> set visited \<union> set pending"
        by auto
    next
      fix b
      assume "b \<in> set pending" and "map_of progs b \<noteq> None"
      then show "b \<in> reachable progs name"
        by (intro pend) simp_all
    qed
    with True show ?thesis
      by simp
  next
    case new: False
    show ?thesis
    proof (cases "map_of progs ref")
      case None
      have "\<exists>new. distinct new \<and> set new \<inter> set visited = {} \<and>
             set visited \<union> set new = reachable progs name \<and>
             merge_pending progs refs visited pending insns
               = insns @ concat (map (merged_block progs name) new)"
      proof (rule 2(2) [OF new None refs entry sound])
        fix a b
        assume a: "a \<in> set visited" and ab: "(a, b) \<in> calls progs"
        then have "b \<in> set visited \<union> set (ref # pending)"
          by (rule closed)
        moreover from ab None have "b \<noteq> ref"
          by (auto simp: in_calls_iff)
        ultimately show "b \<in> set visited \<union> set pending"
          by auto
      next
        fix b
        assume "b \<in> set pending" and "map_of progs b \<noteq> None"
        then show "b \<in> reachable progs name"
          by (intro pend) simp_all
      qed
      with new None show ?thesis
        by simp
    next
      case (Some sub)
      have ref_reach: "ref \<in> reachable progs name"
        using Some by (intro pend) simp_all
      have "ref \<noteq> name"
        using new entry by auto
      with Some have block: "merged_block progs name ref = subprogram_block ref (Instructions sub)"
        by (simp add: merged_block_def)
      have "\<exists>new. distinct new \<and> set new \<inter> set (ref # visited) = {} \<and>
             set (ref # visited) \<union> set new = reachable progs name \<and>
             merge_pending progs refs (ref # visited) (pending @ refs ref)
                 (insns @ subprogram_block ref (Instructions sub))
               = (insns @ subprogram_block ref (Instructions sub))
                   @ concat (map (merged_block progs name) new)"
      proof (rule 2(3) [OF new Some refs])
        show "name \<in> set (ref # visited)"
          using entry by simp
        show "set (ref # visited) \<subseteq> reachable progs name"
          using sound ref_reach by simp
      next
        fix a b
        assume a: "a \<in> set (ref # visited)" and ab: "(a, b) \<in> calls progs"
        show "b \<in> set (ref # visited) \<union> set (pending @ refs ref)"
        proof (cases "a = ref")
          case True
          with ab refs show ?thesis
            by (simp add: in_calls_iff)
        next
          case False
          with a have "a \<in> set visited"
            by simp
          then have "b \<in> set visited \<union> set (ref # pending)"
            using ab by (rule closed)
          then show ?thesis
            by auto
        qed
      next
        fix b
        assume b: "b \<in> set (pending @ refs ref)" and known: "map_of progs b \<noteq> None"
        show "b \<in> reachable progs name"
        proof (cases "b \<in> set pending")
          case True
          with known show ?thesis
            by (intro pend) simp_all
        next
          case False
          with b refs have "b \<in> set (function_references progs ref)"
            by simp
          with known have "(ref, b) \<in> calls progs"
            by (simp add: in_calls_iff)
          with ref_reach show ?thesis
            by (rule reachable_step)
        qed
      qed
      then obtain new' where d: "distinct new'"
        and fresh: "set new' \<inter> set (ref # visited) = {}"
        and all: "set (ref # visited) \<union> set new' = reachable progs name"
        and run: "merge_pending progs refs (ref # visited) (pending @ refs ref)
                 (insns @ subprogram_block ref (Instructions sub))
               = (insns @ subprogram_block ref (Instructions sub))
                   @ concat (map (merged_block progs name) new')"
        by blast
      have "distinct (ref # new')"
        using d fresh by auto
      moreover have "set (ref # new') \<inter> set visited = {}"
        using fresh new by auto
      moreover have "set visited \<union> set (ref # new') = reachable progs name"
        using all by auto
      moreover have "merge_pending progs refs visited (ref # pending) insns
          = insns @ concat (map (merged_block progs name) (ref # new'))"
        using new Some run block by simp
      ultimately show ?thesis
        by blast
    qed
  qed
qed

lemma flattenInstructions_reachable:
  assumes entry: "map_of progs name = Some entry"
  shows "\<exists>order. distinct order \<and> set order = reachable progs name - {name} \<and>
           flattenInstructions name progs (function_references progs)
             = Some (Instructions entry @ concat (map (merged_block progs name) order))"
proof (cases "function_references progs name = []")
  case True
  have "reachable progs name \<subseteq> {name}"
    using True by (intro reachable_least) (auto simp: in_calls_iff)
  then have "reachable progs name - {name} = {}"
    by auto
  moreover have "flattenInstructions name progs (function_references progs)
      = Some (Instructions entry)"
    using entry True by (simp add: flattenInstructions_def)
  ultimately show ?thesis
    by (intro exI [of _ "[]"]) simp
next
  case False
  have "\<exists>new. distinct new \<and> set new \<inter> set [name] = {} \<and>
         set [name] \<union> set new = reachable progs name \<and>
         merge_pending progs (function_references progs) [name]
             (function_references progs name) (Instructions entry)
           = Instructions entry @ concat (map (merged_block progs name) new)"
  proof (rule merge_pending_reachable [OF refl])
    show "name \<in> set [name]"
      by simp
    show "set [name] \<subseteq> reachable progs name"
      by (simp add: reachable_entry)
  next
    fix a b
    assume "a \<in> set [name]" and "(a, b) \<in> calls progs"
    then show "b \<in> set [name] \<union> set (function_references progs name)"
      by (simp add: in_calls_iff)
  next
    fix b
    assume "b \<in> set (function_references progs name)" and "map_of progs b \<noteq> None"
    then have "(name, b) \<in> calls progs"
      by (simp add: in_calls_iff)
    with reachable_entry show "b \<in> reachable progs name"
      by (rule reachable_step)
  qed
  then obtain new where "distinct new" and "set new \<inter> set [name] = {}"
    and "set [name] \<union> set new = reachable progs name"
    and "merge_pending progs (function_references progs) [name]
             (function_references progs name) (Instructions entry)
           = Instructions entry @ concat (map (merged_block progs name) new)"
    by blast
  moreover from this have "set new = reachable progs name - {name}"
    by auto
  moreover have "flattenInstructions name progs (function_references progs)
      = Some (merge_pending progs (function_references progs) [name]
             (function_references progs name) (Instructions entry))"
    using entry False by (simp add: flattenInstructions_def Let_def)
  ultimately show ?thesis
    by auto
qed

section \<open>Relocation\<close>

lemma find_symbol_None_iff: "find_symbol s xs = None \<longleftrightarrow> s \<notin> set (symbols xs)"
  by (induction xs) (auto simp: symbols_Nil symbols_Cons split: option.splits)

lemma find_symbol_Some:
  "find_symbol s xs = Some j \<Longrightarrow> j < length xs \<and> symbol (xs ! j) = Some s"
proof (induction xs arbitrary: j)
  case Nil
  then show ?case
    by simp
next
  case (Cons x xs)
  show ?case
  proof (cases "symbol x = Some s")
    case True
    with Cons.prems show ?thesis
      by simp
  next
    case False
    with Cons.prems obtain j' where "find_symbol s xs = Some j'" and "j = Suc j'"
      by auto
    with Cons.IH [of j'] show ?thesis
      by simp
  qed
qed

lemma relocate_insn_resolves:
  assumes "\<And>r. reference i = Some r \<Longrightarrow> r \<in> set (symbols stream)"
  shows "\<exists>i'. relocate_insn stream idx i = Inr i' \<and> i'\<lparr>rel_offset := 0\<rparr> = i\<lparr>rel_offset := 0\<rparr> \<and>
           (\<forall>r. reference i = Some r \<longrightarrow>
              (\<exists>j. find_symbol r stream = Some j \<and> rel_offset i' = int j - int idx))"
proof (cases "reference i")
  case None
  then show ?thesis
    by (simp add: relocate_insn_def)
next
  case (Some r)
  with assms have "find_symbol r stream \<noteq> None"
    by (simp add: find_symbol_None_iff)
  then obtain j where "find_symbol r stream = Some j"
    by auto
  with Some show ?thesis
    by (simp add: relocate_insn_def)
qed

lemma relocate_from_resolves:
  assumes "set (references rest) \<subseteq> set (symbols stream)"
  shows "\<exists>out. relocate_from stream idx rest = Inr out \<and>
           map (\<lambda>i. i\<lparr>rel_offset := 0\<rparr>) out = map (\<lambda>i. i\<lparr>rel_offset := 0\<rparr>) rest \<and>
           (\<forall>k r. k < length rest \<and> reference (rest ! k) = Some r \<longrightarrow>
              (\<exists>j. find_symbol r stream = Some j \<and> rel_offset (out ! k) = int j - int (idx + k)))"
  using assms
proof (induction rest arbitrary: idx)
  case Nil
  show ?case
    by simp
next
  case (Cons i rest)
  have here: "\<And>r. reference i = Some r \<Longrightarrow> r \<in> set (symbols stream)"
    using Cons.prems by (auto simp: references_Cons)
  have later: "set (references rest) \<subseteq> set (symbols stream)"
    using Cons.prems by (auto simp: references_Cons split: option.splits)
  obtain i' where i': "relocate_insn stream idx i = Inr i'"
    and same: "i'\<lparr>rel_offset := 0\<rparr> = i\<lparr>rel_offset := 0\<rparr>"
    and off: "\<And>r. reference i = Some r \<Longrightarrow>
        \<exists>j. find_symbol r stream = Some j \<and> rel_offset i' = int j - int idx"
    using relocate_insn_resolves [of i stream idx, OF here] by blast
  obtain out where out: "relocate_from stream (Suc idx) rest = Inr out"
    and same': "map (\<lambda>i. i\<lparr>rel_offset := 0\<rparr>) out = map (\<lambda>i. i\<lparr>rel_offset := 0\<rparr>) rest"
    and off': "\<And>k r. k < length rest \<Longrightarrow> reference (rest ! k) = Some r \<Longrightarrow>
        \<exists>j. find_symbol r stream = Some j \<and> rel_offset (out ! k) = int j - int (Suc idx + k)"
    using Cons.IH [OF later, of "Suc idx"] by blast
  have "relocate_from stream idx (i # rest) = Inr (i' # out)"
    using i' out by simp
  moreover have "map (\<lambda>i. i\<lparr>rel_offset := 0\<rparr>) (i' # out) = map (\<lambda>i. i\<lparr>rel_offset := 0\<rparr>) (i # rest)"
    using same same' by simp
  moreover have "\<exists>j. find_symbol r stream = Some j \<and>
      rel_offset ((i' # out) ! k) = int j - int (idx + k)"
    if "k < length (i # rest)" and "reference ((i # rest) ! k) = Some r" for k r
  proof (cases k)
    case 0
    with that off [of r] show ?thesis
      by simp
  next
    case (Suc k')
    with that off' [of k' r] show ?thesis
      by simp
  qed
  ultimately show ?case
    by blast
qed


section \<open>Linking an entry whose references are all satisfied\<close>

lemma references_merged_block:
  "references (merged_block progs name b) = function_references progs b"
  by (cases "map_of progs b")
    (simp_all add: merged_block_def function_references_def references_Nil
      references_subprogram_block)

lemma same_tags:
  assumes "map (\<lambda>i. i\<lparr>rel_offset := 0\<rparr>) out = map (\<lambda>i. i\<lparr>rel_offset := 0\<rparr>) xs"
  shows "length out = length xs"
    and "k < length xs \<Longrightarrow> symbol (out ! k) = symbol (xs ! k)"
    and "k < length xs \<Longrightarrow> reference (out ! k) = reference (xs ! k)"
proof -
  show len: "length out = length xs"
    using assms by (rule map_eq_imp_length_eq)
  assume k: "k < length xs"
  with len assms have "(out ! k)\<lparr>rel_offset := 0\<rparr> = (xs ! k)\<lparr>rel_offset := 0\<rparr>"
    by (metis nth_map)
  then have "symbol ((out ! k)\<lparr>rel_offset := 0\<rparr>) = symbol ((xs ! k)\<lparr>rel_offset := 0\<rparr>)"
    and "reference ((out ! k)\<lparr>rel_offset := 0\<rparr>) = reference ((xs ! k)\<lparr>rel_offset := 0\<rparr>)"
    by simp_all
  then show "symbol (out ! k) = symbol (xs ! k)" and "reference (out ! k) = reference (xs ! k)"
    by simp_all
qed

lemma find_symbol_first:
  "find_symbol s xs = Some j \<Longrightarrow> j' < j \<Longrightarrow> symbol (xs ! j') \<noteq> Some s"
proof (induction xs arbitrary: j j')
  case Nil
  then show ?case
    by simp
next
  case (Cons x xs)
  show ?case
  proof (cases "symbol x = Some s")
    case True
    with Cons.prems show ?thesis
      by simp
  next
    case False
    with Cons.prems obtain i where i: "find_symbol s xs = Some i" and j: "j = Suc i"
      by auto
    show ?thesis
    proof (cases j')
      case 0
      with False show ?thesis
        by simp
    next
      case (Suc i')
      with Cons.prems j have "i' < i"
        by simp
      with Cons.IH [OF i] Suc show ?thesis
        by simp
    qed
  qed
qed

text \<open>
  Where every reference names a symbol of the stream, relocation succeeds, changes nothing
  but the offsets, and gives every call the distance to the first instruction that carries
  the referenced name.
\<close>

lemma relocate_resolves_first:
  assumes "set (references merged) \<subseteq> set (symbols merged)"
  shows "\<exists>out. relocate merged = Inr out \<and>
           map (\<lambda>i. i\<lparr>rel_offset := 0\<rparr>) out = map (\<lambda>i. i\<lparr>rel_offset := 0\<rparr>) merged \<and>
           (\<forall>k r. k < length out \<and> reference (out ! k) = Some r \<longrightarrow>
              (\<exists>j<length out. symbol (out ! j) = Some r \<and>
                 (\<forall>j'<j. symbol (out ! j') \<noteq> Some r) \<and>
                 int k + rel_offset (out ! k) = int j))"
proof -
  obtain out where out: "relocate_from merged 0 merged = Inr out"
    and same: "map (\<lambda>i. i\<lparr>rel_offset := 0\<rparr>) out = map (\<lambda>i. i\<lparr>rel_offset := 0\<rparr>) merged"
    and off: "\<And>k r. k < length merged \<Longrightarrow> reference (merged ! k) = Some r \<Longrightarrow>
        \<exists>j. find_symbol r merged = Some j \<and> rel_offset (out ! k) = int j - int (0 + k)"
    using relocate_from_resolves [OF assms, of 0] by blast
  note len = same_tags(1) [OF same]
  have "\<exists>j<length out. symbol (out ! j) = Some r \<and> (\<forall>j'<j. symbol (out ! j') \<noteq> Some r) \<and>
      int k + rel_offset (out ! k) = int j"
    if k: "k < length out" and r: "reference (out ! k) = Some r" for k r
  proof -
    from k len have k': "k < length merged"
      by simp
    with r have "reference (merged ! k) = Some r"
      using same_tags(3) [OF same, of k] by simp
    with k' obtain j where j: "find_symbol r merged = Some j"
      and offset: "rel_offset (out ! k) = int j - int (0 + k)"
      using off by blast
    from j have bound: "j < length merged" and target: "symbol (merged ! j) = Some r"
      using find_symbol_Some by blast+
    have "j < length out" and "symbol (out ! j) = Some r"
      using bound target len same_tags(2) [OF same, of j] by simp_all
    moreover have "symbol (out ! j') \<noteq> Some r" if "j' < j" for j'
    proof -
      from that bound have "j' < length merged"
        by simp
      then have "symbol (out ! j') = symbol (merged ! j')"
        by (rule same_tags(2) [OF same])
      with find_symbol_first [OF j that] show ?thesis
        by simp
    qed
    ultimately show ?thesis
      using offset by auto
  qed
  with out same show ?thesis
    unfolding relocate_def by blast
qed


text \<open>
  Claim C1. In a universe, cyclic ones included, where every reference reachable from the
  entry is satisfied, linking the entry returns a stream (the traversal is a total
  function, so linking ends on every universe): the instructions of the entry followed by
  the block of every other reachable program, each exactly once, with nothing changed but
  the offsets; and for every instruction of the stream that carries a reference, its index
  plus its offset is the index of the instruction that carries the referenced name as its
  symbol (the first one, should several carry it).
\<close>

theorem link_resolves_every_call:
  assumes entry: "map_of progs name = Some entry" and sat: "satisfied progs name"
  shows "\<exists>order out.
      distinct order \<and> set order = reachable progs name - {name} \<and>
      flattenInstructions name progs (function_references progs)
        = Some (Instructions entry @ concat (map (merged_block progs name) order)) \<and>
      link name progs = Inr out \<and>
      map (\<lambda>i. i\<lparr>rel_offset := 0\<rparr>) out
        = map (\<lambda>i. i\<lparr>rel_offset := 0\<rparr>)
            (Instructions entry @ concat (map (merged_block progs name) order)) \<and>
      (\<forall>k r. k < length out \<and> reference (out ! k) = Some r \<longrightarrow>
         (\<exists>j<length out. symbol (out ! j) = Some r \<and>
            (\<forall>j'<j. symbol (out ! j') \<noteq> Some r) \<and>
            int k + rel_offset (out ! k) = int j))"
proof -
  obtain order where d: "distinct order" and all: "set order = reachable progs name - {name}"
    and flat: "flattenInstructions name progs (function_references progs)
        = Some (Instructions entry @ concat (map (merged_block progs name) order))"
    using flattenInstructions_reachable [OF entry] by blast
  let ?merged = "Instructions entry @ concat (map (merged_block progs name) order)"
  have own: "merged_block progs name name = Instructions entry"
    using entry by (simp add: merged_block_def)
  have blocks: "set (symbols (merged_block progs name b)) \<subseteq> set (symbols ?merged)"
    if "b \<in> reachable progs name" for b
  proof (cases "b = name")
    case True
    with own show ?thesis
      by (simp add: symbols_append)
  next
    case False
    with that all have "b \<in> set order"
      by simp
    then show ?thesis
      by (fastforce simp: in_symbols_iff)
  qed
  have "set (references ?merged) \<subseteq> set (symbols ?merged)"
  proof
    fix r
    assume "r \<in> set (references ?merged)"
    then have "r \<in> set (references (Instructions entry)) \<or>
        (\<exists>n\<in>set order. r \<in> set (references (merged_block progs name n)))"
      by (auto simp: in_references_iff)
    then have "\<exists>a. a \<in> reachable progs name \<and> r \<in> set (function_references progs a)"
    proof
      assume "r \<in> set (references (Instructions entry))"
      with entry have "r \<in> set (function_references progs name)"
        by (simp add: function_references_def)
      with reachable_entry show ?thesis
        by blast
    next
      assume "\<exists>n\<in>set order. r \<in> set (references (merged_block progs name n))"
      then obtain n where "n \<in> set order" and "r \<in> set (function_references progs n)"
        by (auto simp: references_merged_block)
      with all show ?thesis
        by blast
    qed
    then obtain a where "a \<in> reachable progs name" and "r \<in> set (function_references progs a)"
      by blast
    with sat obtain b where "b \<in> reachable progs name"
      and "r \<in> set (symbols (merged_block progs name b))"
      unfolding satisfied_def by blast
    with blocks show "r \<in> set (symbols ?merged)"
      by blast
  qed
  then obtain out where "relocate ?merged = Inr out"
    and "map (\<lambda>i. i\<lparr>rel_offset := 0\<rparr>) out = map (\<lambda>i. i\<lparr>rel_offset := 0\<rparr>) ?merged"
    and "\<forall>k r. k < length out \<and> reference (out ! k) = Some r \<longrightarrow>
         (\<exists>j<length out. symbol (out ! j) = Some r \<and>
            (\<forall>j'<j. symbol (out ! j') \<noteq> Some r) \<and>
            int k + rel_offset (out ! k) = int j)"
    using relocate_resolves_first by blast
  moreover from flat have "link name progs = relocate ?merged"
    by (simp add: link_def)
  ultimately show ?thesis
    using d all flat by auto
qed

text \<open>
  The universe in which \<^verbatim>\<open>A\<close> calls \<^verbatim>\<open>B\<close> and \<^verbatim>\<open>B\<close> calls \<^verbatim>\<open>A\<close>, linked at \<^verbatim>\<open>A\<close>:
  the three instructions of \<^verbatim>\<open>A\<close>, then the two of \<^verbatim>\<open>B\<close>; the call at index 1 gets the
  offset 2 and reaches \<^verbatim>\<open>B\<close> at index 3, the call at index 3 gets the offset -3 and
  reaches \<^verbatim>\<open>A\<close> at index 0.
\<close>

theorem link_resolves_every_call_witness:
  "map_of mutual_universe ''A'' = Some mutual_A \<and>
   satisfied mutual_universe ''A'' \<and>
   (\<exists>order out.
      distinct order \<and> set order = reachable mutual_universe ''A'' - {''A''} \<and>
      flattenInstructions ''A'' mutual_universe (function_references mutual_universe)
        = Some (Instructions mutual_A @ concat (map (merged_block mutual_universe ''A'') order)) \<and>
      link ''A'' mutual_universe = Inr out \<and>
      map (\<lambda>i. i\<lparr>rel_offset := 0\<rparr>) out
        = map (\<lambda>i. i\<lparr>rel_offset := 0\<rparr>)
            (Instructions mutual_A @ concat (map (merged_block mutual_universe ''A'') order)) \<and>
      (\<forall>k r. k < length out \<and> reference (out ! k) = Some r \<longrightarrow>
         (\<exists>j<length out. symbol (out ! j) = Some r \<and>
            (\<forall>j'<j. symbol (out ! j') \<noteq> Some r) \<and>
            int k + rel_offset (out ! k) = int j))) \<and>
   link ''A'' mutual_universe =
     Inr [WithSymbol (plain 183) ''A'',
          (WithReference (plain 133) ''B'')\<lparr>rel_offset := 2\<rparr>,
          plain 149,
          (WithSymbol (WithReference (plain 133) ''A'') ''B'')\<lparr>rel_offset := - 3\<rparr>,
          plain 149] \<and>
   link ''entrypoint'' test_progs =
     Inr [plain 191,
          (WithReference (plain 133) ''my_func'')\<lparr>rel_offset := 2\<rparr>,
          plain 149,
          (WithSymbol (WithReference (plain 133) ''my_other_func'') ''my_func'')\<lparr>rel_offset := 2\<rparr>,
          plain 149,
          WithSymbol (plain 24) ''my_other_func'',
          plain 149]"
proof -
  have refs_A: "function_references mutual_universe ''A'' = [''B'']"
    and refs_B: "function_references mutual_universe ''B'' = [''A'']"
    by (simp_all add: function_references_def mutual_universe_def mutual_A_def mutual_B_def
        references_Cons references_Nil)
  have refs_other: "function_references mutual_universe a = []" if "a \<noteq> ''A''" and "a \<noteq> ''B''" for a
    using that by (simp add: function_references_def mutual_universe_def)
  have h1: "map_of mutual_universe ''A'' = Some mutual_A"
    by (simp add: mutual_universe_def)
  have "(''A'', ''B'') \<in> calls mutual_universe"
    by (simp add: in_calls_iff refs_A) (simp add: mutual_universe_def)
  then have reach_B: "''B'' \<in> reachable mutual_universe ''A''"
    using reachable_entry reachable_step by blast
  have sym_A: "''A'' \<in> set (symbols (merged_block mutual_universe ''A'' ''A''))"
    by (simp add: merged_block_def mutual_universe_def mutual_A_def symbols_Cons)
  have sym_B: "''B'' \<in> set (symbols (merged_block mutual_universe ''A'' ''B''))"
    by (simp add: merged_block_def mutual_universe_def mutual_B_def subprogram_block_def
        symbols_Cons)
  have h2: "satisfied mutual_universe ''A''"
    unfolding satisfied_def
  proof (intro allI impI)
    fix a r
    assume ar: "a \<in> reachable mutual_universe ''A'' \<and> r \<in> set (function_references mutual_universe a)"
    then have "a = ''A'' \<and> r = ''B'' \<or> a = ''B'' \<and> r = ''A''"
      using refs_A refs_B refs_other [of a] by (cases "a = ''A''"; cases "a = ''B''") auto
    then show "\<exists>b. b \<in> reachable mutual_universe ''A'' \<and>
        r \<in> set (symbols (merged_block mutual_universe ''A'' b))"
      using reach_B reachable_entry [of "''A''" mutual_universe] sym_A sym_B by blast
  qed
  have hB: "map_of mutual_universe ''B'' = Some mutual_B"
    by (simp add: mutual_universe_def)
  have flat: "flattenInstructions ''A'' mutual_universe (function_references mutual_universe)
      = Some (Instructions mutual_A @ subprogram_block ''B'' (Instructions mutual_B))"
    by (simp add: flattenInstructions_def refs_A refs_B Let_def h1 hB)
  have run: "link ''A'' mutual_universe =
     Inr [WithSymbol (plain 183) ''A'',
          (WithReference (plain 133) ''B'')\<lparr>rel_offset := 2\<rparr>,
          plain 149,
          (WithSymbol (WithReference (plain 133) ''A'') ''B'')\<lparr>rel_offset := - 3\<rparr>,
          plain 149]"
    unfolding link_def flat
    by (simp add: mutual_A_def mutual_B_def subprogram_block_def
        relocate_def relocate_insn_def plain_def WithSymbol_def WithReference_def)
  have test_refs: "function_references test_progs ''entrypoint'' = [''my_func'']"
    "function_references test_progs ''my_func'' = [''my_other_func'']"
    "function_references test_progs ''my_other_func'' = []"
    by (simp_all add: function_references_def test_progs_def references_Cons references_Nil)
  have test_lookup:
    "map_of test_progs ''entrypoint'' =
       Some \<lparr>Name = [], Type = SocketFilter, License = ''MIT'',
         Instructions = [plain 191, WithReference (plain 133) ''my_func'', plain 149]\<rparr>"
    "map_of test_progs ''my_func'' =
       Some \<lparr>Name = [], Type = UnspecifiedProgram, License = [],
         Instructions =
           [WithSymbol (WithReference (plain 133) ''my_other_func'') ''my_func'', plain 149]\<rparr>"
    "map_of test_progs ''my_other_func'' =
       Some \<lparr>Name = [], Type = UnspecifiedProgram, License = [],
         Instructions = [WithSymbol (plain 24) ''my_other_func'', plain 149]\<rparr>"
    by (simp_all add: test_progs_def)
  have test_flat: "flattenInstructions ''entrypoint'' test_progs (function_references test_progs)
      = Some ([plain 191, WithReference (plain 133) ''my_func'', plain 149]
          @ subprogram_block ''my_func''
              [WithSymbol (WithReference (plain 133) ''my_other_func'') ''my_func'', plain 149]
          @ subprogram_block ''my_other_func'' [WithSymbol (plain 24) ''my_other_func'', plain 149])"
    by (simp add: flattenInstructions_def test_refs Let_def test_lookup)
  have test_run: "link ''entrypoint'' test_progs =
     Inr [plain 191,
          (WithReference (plain 133) ''my_func'')\<lparr>rel_offset := 2\<rparr>,
          plain 149,
          (WithSymbol (WithReference (plain 133) ''my_other_func'') ''my_func'')\<lparr>rel_offset := 2\<rparr>,
          plain 149,
          WithSymbol (plain 24) ''my_other_func'',
          plain 149]"
    unfolding link_def test_flat
    by (simp add: subprogram_block_def relocate_def relocate_insn_def plain_def WithSymbol_def
        WithReference_def)
  from h1 h2 link_resolves_every_call [OF h1 h2] run test_run show ?thesis
    by (intro conjI)
qed

section \<open>An unsatisfied reference\<close>



text \<open>Linking in place returns what \<open>link\<close> returns.\<close>

lemma fst_link_in_place: "fst (link_in_place name progs) = link name progs"
  by (simp add: link_in_place_def link_def split: option.splits)






section \<open>Programs without references\<close>

text \<open>
  A program none of whose instructions carries a reference tag links to its own
  instructions: nothing is appended and nothing is rewritten.
\<close>

lemma relocate_from_without_references:
  "references rest = [] \<Longrightarrow> relocate_from stream idx rest = Inr rest"
proof (induction rest arbitrary: idx)
  case Nil
  show ?case
    by simp
next
  case (Cons i rest)
  then have "reference i = None" and "references rest = []"
    by (auto simp: references_Cons split: option.splits)
  with Cons.IH [of "Suc idx"] show ?case
    by (simp add: relocate_insn_def)
qed

lemma link_without_references:
  assumes "map_of progs name = Some entry" and "references (Instructions entry) = []"
  shows "flattenInstructions name progs (function_references progs) = Some (Instructions entry)"
    and "link name progs = Inr (Instructions entry)"
proof -
  from assms have "function_references progs name = []"
    by (simp add: function_references_def)
  with assms show flat: "flattenInstructions name progs (function_references progs)
      = Some (Instructions entry)"
    by (simp add: flattenInstructions_def)
  with assms show "link name progs = Inr (Instructions entry)"
    by (simp add: link_def relocate_def relocate_from_without_references)
qed

end
